theory Spec2Isabelle
  imports Main "HOL-Library.Word"
begin

section \<open>Strings, numbers and plain objects of the host language\<close>

text \<open>
  Strings are lists of 8-bit characters. \<open>String.prototype.toLowerCase\<close> belongs to the
  host and is one of its parameters below. \<open>lower_ascii\<close> lowers the letters A to Z and
  nothing else; it is what the host's function does on a string of ASCII characters and
  serves in the examples.
\<close>

definition lower_char :: "char \<Rightarrow> char" where
  "lower_char c =
     (let n = (of_char c :: nat) in if 65 \<le> n \<and> n \<le> 90 then char_of (n + 32) else c)"

definition lower_ascii :: "string \<Rightarrow> string" where
  "lower_ascii s = map lower_char s"

text \<open>
  Numbers are modelled as integers (\<open>timeout\<close>, \<open>maxRedirects\<close>, \<open>port\<close>, the
  status code). \<open>show_int\<close> is the decimal notation; a template literal renders an
  integer that way while its magnitude is below \<open>10^21\<close> (see \<open>number_string\<close> below).
\<close>

definition digit_char :: "nat \<Rightarrow> char" where
  "digit_char d = char_of (48 + d)"

fun show_nat :: "nat \<Rightarrow> string" where
  "show_nat n = (if n < 10 then [digit_char n] else show_nat (n div 10) @ [digit_char (n mod 10)])"

declare show_nat.simps [simp del]

definition show_int :: "int \<Rightarrow> string" where
  "show_int i = (if i < 0 then CHR ''-'' # show_nat (nat (- i)) else show_nat (nat i))"

text \<open>
  A plain object used as \<open>Record<string, V>\<close>: its own string-keyed properties in
  insertion order. \<open>obj_get\<close> is the property read \<open>obj[k]\<close> (\<open>None\<close> is \<open>undefined\<close>).
  \<open>obj_set\<close> stores an own property: it replaces the value of an existing property in
  place and appends a new property otherwise. \<open>assign\<close> is the assignment
  \<open>obj[k] = v\<close> of a string or of \<open>undefined\<close> to an ordinary object: it stores an own
  property under every key but \<open>__proto__\<close>, which is the accessor inherited from
  \<open>Object.prototype\<close>, whose setter ignores a value that is neither an object nor
  \<open>null\<close>, so that the object stays as it is. \<open>entries\<close> is \<open>Object.entries\<close>.
\<close>

type_synonym 'v js_object = "(string \<times> 'v) list"

definition obj_get :: "'v js_object \<Rightarrow> string \<Rightarrow> 'v option" where
  "obj_get obj k = map_of obj k"

fun obj_set :: "'v js_object \<Rightarrow> string \<Rightarrow> 'v \<Rightarrow> 'v js_object" where
  "obj_set [] k v = [(k, v)]"
| "obj_set ((k', v') # rest) k v =
     (if k' = k then (k, v) # rest else (k', v') # obj_set rest k v)"

definition assign :: "'v js_object \<Rightarrow> string \<Rightarrow> 'v \<Rightarrow> 'v js_object" where
  "assign obj k v = (if k = ''__proto__'' then obj else obj_set obj k v)"

definition entries :: "'v js_object \<Rightarrow> (string \<times> 'v) list" where
  "entries obj = obj"

text \<open>Truthiness of a value that is a string or \<open>undefined\<close>: only a non-empty string is truthy.\<close>

definition truthy :: "string option \<Rightarrow> bool" where
  "truthy v = (case v of None \<Rightarrow> False | Some s \<Rightarrow> s \<noteq> [])"

text \<open>
  Objects are passed by reference. The store holds the header objects; a reference is an
  index into it, and an object literal \<open>{}\<close> allocates a new cell at the end.
\<close>

type_synonym ref = nat
type_synonym heap = "string js_object list"

definition alloc :: "heap \<Rightarrow> string js_object \<Rightarrow> ref \<times> heap" where
  "alloc h obj = (length h, h @ [obj])"

section \<open>The data model: RequestOptions and Response\<close>

datatype http_method = GET | POST | PUT | DELETE | PATCH

datatype protocol = Http | Https | Socks5

record proxy_descriptor =
  protocol :: protocol
  host :: string
  port :: int

text \<open>The field \<open>proxy\<close> is a descriptor or \<open>false\<close>; an omitted field is \<open>None\<close>.\<close>

datatype proxy_setting = ProxyFalse | ProxyDescriptor proxy_descriptor

type_synonym buffer = "8 word list"

datatype body = BodyString string | BodyBuffer buffer

datatype response_type = Text | Json | Arraybuffer

record request_options =
  opt_method :: "http_method option"
  opt_headers :: "ref option"
  opt_body :: "body option"
  opt_proxy :: "proxy_setting option"
  opt_timeout :: "int option"
  opt_responseType :: "response_type option"
  opt_followRedirect :: "bool option"
  opt_maxRedirects :: "int option"

text \<open>The empty options object \<open>{}\<close>, also what spreading \<open>undefined\<close> gives.\<close>

definition no_options :: request_options where
  "no_options = \<lparr>opt_method = None, opt_headers = None, opt_body = None, opt_proxy = None,
     opt_timeout = None, opt_responseType = None, opt_followRedirect = None,
     opt_maxRedirects = None\<rparr>"

section \<open>The wrappers with a body: post, put, patch\<close>

text \<open>
  The argument \<open>data\<close> has type \<open>any\<close>; the wrappers only ask whether it is a string.
  \<open>JSON.stringify\<close> belongs to the host and is a parameter: it throws on some values
  (a BigInt, a cyclic object; \<open>Inl\<close> is the exception), and otherwise returns a string
  or, for a value that has no JSON text, \<open>undefined\<close> (\<open>Inr None\<close>).
\<close>

datatype 'd js_any = Str string | NonStr 'd

fun is_string :: "'d js_any \<Rightarrow> bool" where
  "is_string (Str s) = True"
| "is_string (NonStr d) = False"

text \<open>
  \<open>post\<close>, \<open>put\<close> and \<open>patch\<close> have the same body up to the method they fix.
  \<open>body_request_args\<close> is that body up to the call of \<open>request\<close>. The first statement
  computes \<open>body\<close>; an exception of \<open>JSON.stringify\<close> leaves the wrapper there, before
  anything is assigned. Otherwise the result is the options object passed to \<open>request\<close>
  and the store after the assignment to \<open>headers\<close>.
\<close>

definition body_request_args ::
  "http_method \<Rightarrow> ('d \<Rightarrow> string + string option) \<Rightarrow> 'd js_any \<Rightarrow> request_options option
     \<Rightarrow> heap \<Rightarrow> string + request_options \<times> heap" where
  "body_request_args m stringify d options h =
     (case (case d of Str s \<Rightarrow> Inr (Some s) | NonStr v \<Rightarrow> stringify v) of
        Inl e \<Rightarrow> Inl e
      | Inr body \<Rightarrow>
          (let (headers, h1) = (case Option.bind options opt_headers of
                                  Some r \<Rightarrow> (r, h)
                                | None \<Rightarrow> alloc h []);
               h2 = (if \<not> is_string d \<and> \<not> truthy (obj_get (h1 ! headers) ''content-type'')
                     then h1[headers := assign (h1 ! headers) ''content-type'' ''application/json'']
                     else h1)
           in Inr ((case options of None \<Rightarrow> no_options | Some opts \<Rightarrow> opts)
                     \<lparr>opt_method := Some m, opt_body := map_option BodyString body,
                      opt_headers := Some headers\<rparr>, h2)))"

definition post_args ::
  "('d \<Rightarrow> string + string option) \<Rightarrow> 'd js_any \<Rightarrow> request_options option \<Rightarrow> heap
     \<Rightarrow> string + request_options \<times> heap" where
  "post_args = body_request_args POST"

definition put_args ::
  "('d \<Rightarrow> string + string option) \<Rightarrow> 'd js_any \<Rightarrow> request_options option \<Rightarrow> heap
     \<Rightarrow> string + request_options \<times> heap" where
  "put_args = body_request_args PUT"

definition patch_args ::
  "('d \<Rightarrow> string + string option) \<Rightarrow> 'd js_any \<Rightarrow> request_options option \<Rightarrow> heap
     \<Rightarrow> string + request_options \<times> heap" where
  "patch_args = body_request_args PATCH"

section \<open>The host: the network stack, the timer and the promise\<close>

text \<open>
  A network context (\<open>Session\<close>): the default shared one, or the one obtained from
  \<open>session.fromPartition(name, {cache})\<close>. \<open>NullSession\<close> is the value \<open>null\<close> that
  \<open>cleanup\<close> stores in the variable.
\<close>

datatype session = DefaultSession | FromPartition string bool | NullSession

datatype redirect_mode = Follow | Manual

record net_request_options =
  nr_method :: http_method
  nr_url :: string
  nr_session :: session
  nr_redirect :: redirect_mode
  nr_useSessionCookies :: bool

text \<open>Every call the module makes on the host, in the order it makes them.\<close>

datatype host_call =
    CallFromPartition string bool
  | CallSetProxy session string
  | CallNetRequest net_request_options
  | CallSetHeader string string
  | CallSetTimeout int
  | CallClearTimeout
  | CallAbort
  | CallWrite body
  | CallEnd

text \<open>
  What the host answers. An error value of the host is identified with its rendering as
  a string, which is all the module reads of it (in a template literal).
  \<open>setProxy\<close> answers with the error its promise rejects with, \<open>netRequest\<close> and
  \<open>setHeader\<close> with the exception they throw (\<open>None\<close>: no error). \<open>utf8\<close> is
  \<open>Buffer.toString('utf-8')\<close>, which is total, and \<open>jsonParse\<close> is \<open>JSON.parse\<close>, which
  throws on a text that is not JSON. \<open>toLowerCase\<close> is \<open>String.prototype.toLowerCase\<close>,
  and \<open>exponential\<close> is the notation with an exponent in which the host renders a number
  whose magnitude is \<open>10^21\<close> or more.
\<close>

record 'j host =
  dateNow :: int
  mathRandom :: string
  setProxy :: "session \<Rightarrow> string \<Rightarrow> string option"
  netRequest :: "net_request_options \<Rightarrow> string option"
  setHeader :: "string \<Rightarrow> string \<Rightarrow> string option"
  utf8 :: "buffer \<Rightarrow> string"
  jsonParse :: "string \<Rightarrow> string + 'j"
  toLowerCase :: "string \<Rightarrow> string"
  exponential :: "int \<Rightarrow> string"

text \<open>A number in a template literal.\<close>

definition number_string :: "'j host \<Rightarrow> int \<Rightarrow> string" where
  "number_string hst n = (if \<bar>n\<bar> < 10 ^ 21 then show_int n else exponential hst n)"

text \<open>
  A rejection carries either an error object of the host, passed on as it is, or an
  object made here by \<open>new Error(message)\<close>.
\<close>

datatype js_error = HostError string | NewError string

datatype 'j response_data = DataText string | DataJson 'j | DataBuffer buffer

record 'j response =
  data :: "'j response_data"
  status :: int
  statusText :: string
  headers :: "string option js_object"
  url :: string

datatype 'j outcome = Resolved "'j response" | Rejected js_error

text \<open>The incoming message \<open>res\<close> of the \<open>response\<close> event.\<close>

record incoming_message =
  statusCode :: int
  statusMessage :: string
  rawHeaders :: "string list option"

text \<open>
  The events the host delivers to one call: the events of the request (\<open>redirect\<close>,
  \<open>response\<close>, \<open>error\<close>, \<open>abort\<close>), those of the incoming message (\<open>data\<close>, \<open>end\<close>,
  \<open>error\<close>) and the expiry of the timer.
\<close>

datatype event =
    EvRedirect
  | EvResponse incoming_message
  | EvData buffer
  | EvEnd
  | EvResError string
  | EvReqError string
  | EvAbort
  | EvTimeout

text \<open>
  The state of one call: the promise (\<open>settled\<close> is its state, \<open>attempts\<close> every call of
  \<open>resolve\<close> or \<open>reject\<close> in order), the variables of the closure (\<open>sessionToUse\<close>,
  \<open>tempPartition\<close>, \<open>timeoutId\<close>, \<open>chunks\<close>, \<open>redirectCount\<close>), whether the handlers of
  the request are registered (\<open>req\<close>), what the \<open>response\<close> handler captured (\<open>res\<close>),
  whether the timer is still due (\<open>timerPending\<close>), and the calls made on the host.
\<close>

record 'j call =
  settled :: "'j outcome option"
  attempts :: "'j outcome list"
  sessionToUse :: session
  tempPartition :: "string option"
  req :: bool
  timeoutId :: bool
  timerPending :: bool
  chunks :: "buffer list"
  redirectCount :: int
  res :: "(int \<times> string \<times> string option js_object) option"
  calls :: "host_call list"

definition init_call :: "'j call" where
  "init_call = \<lparr>settled = None, attempts = [], sessionToUse = DefaultSession,
     tempPartition = None, req = False, timeoutId = False, timerPending = False,
     chunks = [], redirectCount = 0, res = None, calls = []\<rparr>"

text \<open>A promise keeps the first outcome it is given; later calls change nothing.\<close>

definition settle :: "'j outcome \<Rightarrow> 'j call \<Rightarrow> 'j call" where
  "settle out c =
     c\<lparr>attempts := attempts c @ [out],
       settled := (case settled c of None \<Rightarrow> Some out | Some first \<Rightarrow> Some first)\<rparr>"

definition resolve :: "'j response \<Rightarrow> 'j call \<Rightarrow> 'j call" where
  "resolve r = settle (Resolved r)"

definition reject :: "js_error \<Rightarrow> 'j call \<Rightarrow> 'j call" where
  "reject e = settle (Rejected e)"

definition host_do :: "host_call \<Rightarrow> 'j call \<Rightarrow> 'j call" where
  "host_do hc c = c\<lparr>calls := calls c @ [hc]\<rparr>"

section \<open>request\<close>

text \<open>The destructuring of \<open>options\<close> with its defaults.\<close>

definition method_of :: "request_options \<Rightarrow> http_method" where
  "method_of opts = (case opt_method opts of None \<Rightarrow> GET | Some m \<Rightarrow> m)"

definition headers_of :: "request_options \<Rightarrow> heap \<Rightarrow> string js_object" where
  "headers_of opts h = (case opt_headers opts of None \<Rightarrow> [] | Some r \<Rightarrow> h ! r)"

definition timeout_of :: "request_options \<Rightarrow> int" where
  "timeout_of opts = (case opt_timeout opts of None \<Rightarrow> 30000 | Some t \<Rightarrow> t)"

definition responseType_of :: "request_options \<Rightarrow> response_type" where
  "responseType_of opts = (case opt_responseType opts of None \<Rightarrow> Text | Some t \<Rightarrow> t)"

definition followRedirect_of :: "request_options \<Rightarrow> bool" where
  "followRedirect_of opts = (case opt_followRedirect opts of None \<Rightarrow> True | Some b \<Rightarrow> b)"

definition maxRedirects_of :: "request_options \<Rightarrow> int" where
  "maxRedirects_of opts = (case opt_maxRedirects opts of None \<Rightarrow> 20 | Some n \<Rightarrow> n)"

fun protocol_name :: "protocol \<Rightarrow> string" where
  "protocol_name Http = ''http''"
| "protocol_name Https = ''https''"
| "protocol_name Socks5 = ''socks5''"

definition proxy_rules :: "'j host \<Rightarrow> proxy_descriptor \<Rightarrow> string" where
  "proxy_rules hst p =
     protocol_name (protocol p) @ ''://'' @ host p @ '':'' @ number_string hst (port p)"

definition partition_name :: "'j host \<Rightarrow> string" where
  "partition_name hst =
     ''temp-request-'' @ number_string hst (dateNow hst) @ ''-'' @ mathRandom hst"

text \<open>
  \<open>setupProxy\<close>: the state after it and the error its promise rejects with, if any.
  Only a descriptor is truthy; \<open>false\<close> and an omitted field are not.
\<close>

definition setupProxy :: "'j host \<Rightarrow> request_options \<Rightarrow> 'j call \<Rightarrow> string option \<times> 'j call" where
  "setupProxy hst opts c =
     (case opt_proxy opts of
        Some (ProxyDescriptor proxy) \<Rightarrow>
          (let c1 = c\<lparr>tempPartition := Some (partition_name hst)\<rparr>;
               c2 = host_do (CallFromPartition (partition_name hst) False)
                      (c1\<lparr>sessionToUse := FromPartition (partition_name hst) False\<rparr>);
               proxyUrl = proxy_rules hst proxy;
               c3 = host_do (CallSetProxy (sessionToUse c2) proxyUrl) c2
           in (setProxy hst (sessionToUse c2) proxyUrl, c3))
      | Some ProxyFalse \<Rightarrow> (None, c)
      | None \<Rightarrow> (None, c))"

definition cleanup :: "'j call \<Rightarrow> 'j call" where
  "cleanup c =
     (case tempPartition c of
        None \<Rightarrow> c
      | Some name \<Rightarrow> if name \<noteq> [] then c\<lparr>sessionToUse := NullSession\<rparr> else c)"

text \<open>\<open>if (timeoutId) clearTimeout(timeoutId)\<close>\<close>

definition clearTimer :: "'j call \<Rightarrow> 'j call" where
  "clearTimer c =
     (if timeoutId c then host_do CallClearTimeout (c\<lparr>timerPending := False\<rparr>) else c)"

text \<open>The loop over \<open>Object.entries(headers)\<close>; an exception of \<open>setHeader\<close> ends it.\<close>

fun setHeaders :: "'j host \<Rightarrow> (string \<times> string) list \<Rightarrow> 'j call \<Rightarrow> string option \<times> 'j call" where
  "setHeaders hst [] c = (None, c)"
| "setHeaders hst ((key, v) # rest) c =
     (case setHeader hst key v of
        Some e \<Rightarrow> (Some e, host_do (CallSetHeader key v) c)
      | None \<Rightarrow> setHeaders hst rest (host_do (CallSetHeader key v) c))"

text \<open>
  \<open>if (body)\<close>: \<open>undefined\<close> and the empty string are falsy, a buffer is an object and
  truthy.
\<close>

fun body_truthy :: "body option \<Rightarrow> bool" where
  "body_truthy None = False"
| "body_truthy (Some (BodyString s)) = (s \<noteq> [])"
| "body_truthy (Some (BodyBuffer b)) = True"

text \<open>
  The callback of \<open>setupProxy().then\<close>: it builds the request, sets the headers, starts
  the timer, registers the handlers, writes the body and ends the request. The result
  holds the exception that left the callback, if any. Registering a handler, \<open>write\<close> of
  a string or a buffer and \<open>end\<close> are taken not to throw.
\<close>

definition start_request ::
  "'j host \<Rightarrow> string \<Rightarrow> request_options \<Rightarrow> heap \<Rightarrow> 'j call \<Rightarrow> string option \<times> 'j call" where
  "start_request hst u opts h c =
     (let nro = \<lparr>nr_method = method_of opts, nr_url = u, nr_session = sessionToUse c,
                 nr_redirect = (if followRedirect_of opts then Follow else Manual),
                 nr_useSessionCookies = True\<rparr>;
          c1 = host_do (CallNetRequest nro) c
      in case netRequest hst nro of
           Some e \<Rightarrow> (Some e, c1)
         | None \<Rightarrow>
            (case setHeaders hst (entries (headers_of opts h)) c1 of
               (Some e, c2) \<Rightarrow> (Some e, c2)
             | (None, c2) \<Rightarrow>
                 (let c3 = (if timeout_of opts > 0
                            then host_do (CallSetTimeout (timeout_of opts))
                                   (c2\<lparr>timeoutId := True, timerPending := True\<rparr>)
                            else c2);
                      c4 = c3\<lparr>req := True\<rparr>;
                      c5 = (case opt_body opts of
                              None \<Rightarrow> c4
                            | Some b \<Rightarrow> if body_truthy (Some b) then host_do (CallWrite b) c4 else c4)
                  in (None, host_do CallEnd c5))))"

text \<open>
  \<open>request\<close> up to the point where it returns the promise and the request is on its way:
  \<open>setupProxy().then(...).catch(...)\<close>. The handler of \<open>catch\<close> receives the rejection of
  \<open>setupProxy\<close> and also an exception thrown inside the callback of \<open>then\<close>.
\<close>

definition request :: "'j host \<Rightarrow> string \<Rightarrow> request_options \<Rightarrow> heap \<Rightarrow> 'j call" where
  "request hst u opts h =
     (case setupProxy hst opts init_call of
        (Some e, c) \<Rightarrow> reject (NewError (''Failed to setup proxy: '' @ e)) (cleanup c)
      | (None, c) \<Rightarrow>
          (case start_request hst u opts h c of
             (Some e, c') \<Rightarrow> reject (NewError (''Failed to setup proxy: '' @ e)) (cleanup c')
           | (None, c') \<Rightarrow> c'))"

text \<open>The loop that reads the raw alternating name/value sequence of the response.\<close>

function extract_loop ::
  "'j host \<Rightarrow> string list \<Rightarrow> nat \<Rightarrow> string option js_object \<Rightarrow> string option js_object" where
  "extract_loop hst raw i responseHeaders =
     (if i < length raw
      then extract_loop hst raw (i + 2)
             (assign responseHeaders (toLowerCase hst (raw ! i))
                (if i + 1 < length raw then Some (raw ! (i + 1)) else None))
      else responseHeaders)"
  by pat_completeness auto
termination
  by (relation "measure (\<lambda>(hst, raw, i, responseHeaders). length raw - i)") auto

declare extract_loop.simps [simp del]

definition extractHeaders :: "'j host \<Rightarrow> string list option \<Rightarrow> string option js_object" where
  "extractHeaders hst raw = extract_loop hst (case raw of None \<Rightarrow> [] | Some r \<Rightarrow> r) 0 []"

text \<open>The \<open>switch\<close> on \<open>responseType\<close> inside the \<open>try\<close>: the data, or the exception.\<close>

fun decode_body :: "'j host \<Rightarrow> response_type \<Rightarrow> buffer \<Rightarrow> string + 'j response_data" where
  "decode_body hst Json buffer =
     (case jsonParse hst (utf8 hst buffer) of Inl e \<Rightarrow> Inl e | Inr v \<Rightarrow> Inr (DataJson v))"
| "decode_body hst Arraybuffer buffer = Inr (DataBuffer buffer)"
| "decode_body hst Text buffer = Inr (DataText (utf8 hst buffer))"

definition timeout_message :: "'j host \<Rightarrow> int \<Rightarrow> string" where
  "timeout_message hst t = ''Request timeout after '' @ number_string hst t @ ''ms''"

definition redirects_message :: "'j host \<Rightarrow> int \<Rightarrow> string" where
  "redirects_message hst n = ''Too many redirects (>'' @ number_string hst n @ '')''"

text \<open>
  The handlers. An event whose handler is not registered changes nothing: the handlers
  of the request exist once \<open>req\<close> holds, those of the incoming message once the
  \<open>response\<close> event was handled, and the timer runs its callback only while it is due.
\<close>

fun handle :: "'j host \<Rightarrow> string \<Rightarrow> request_options \<Rightarrow> 'j call \<Rightarrow> event \<Rightarrow> 'j call" where
  "handle hst u opts c EvTimeout =
     (if timerPending c
      then reject (NewError (timeout_message hst (timeout_of opts)))
             (cleanup (host_do CallAbort (c\<lparr>timerPending := False\<rparr>)))
      else c)"
| "handle hst u opts c EvRedirect =
     (if req c
      then (let c1 = c\<lparr>redirectCount := redirectCount c + 1\<rparr>
            in if redirectCount c1 > maxRedirects_of opts
               then reject (NewError (redirects_message hst (maxRedirects_of opts)))
                      (clearTimer (cleanup (host_do CallAbort c1)))
               else c1)
      else c)"
| "handle hst u opts c (EvResponse r) =
     (if req c
      then c\<lparr>res := Some (statusCode r, statusMessage r, extractHeaders hst (rawHeaders r))\<rparr>
      else c)"
| "handle hst u opts c (EvData chunk) =
     (case res c of None \<Rightarrow> c | Some captured \<Rightarrow> c\<lparr>chunks := chunks c @ [chunk]\<rparr>)"
| "handle hst u opts c EvEnd =
     (case res c of
        None \<Rightarrow> c
      | Some (code, message, responseHeaders) \<Rightarrow>
          (let c1 = clearTimer (cleanup c);
               buffer = concat (chunks c1)
           in case decode_body hst (responseType_of opts) buffer of
                Inr d \<Rightarrow> resolve \<lparr>data = d, status = code, statusText = message,
                                   headers = responseHeaders, url = u\<rparr> c1
              | Inl e \<Rightarrow> reject (NewError (''Failed to parse response: '' @ e)) c1))"
| "handle hst u opts c (EvResError e) =
     (case res c of None \<Rightarrow> c | Some captured \<Rightarrow> reject (HostError e) (clearTimer (cleanup c)))"
| "handle hst u opts c (EvReqError e) =
     (if req c then reject (HostError e) (clearTimer (cleanup c)) else c)"
| "handle hst u opts c EvAbort =
     (if req c then reject (NewError ''Request aborted'') (clearTimer (cleanup c)) else c)"

definition run :: "'j host \<Rightarrow> string \<Rightarrow> request_options \<Rightarrow> 'j call \<Rightarrow> event list \<Rightarrow> 'j call" where
  "run hst u opts c evs = foldl (handle hst u opts) c evs"




section \<open>Notions used to state the properties\<close>

text \<open>
  The raw header sequence read as the spec describes it: alternating names and values.
  A name with no value after it has the value \<open>undefined\<close>.
\<close>

fun header_pairs :: "string list \<Rightarrow> (string \<times> string option) list" where
  "header_pairs [] = []"
| "header_pairs [name] = [(name, None)]"
| "header_pairs (name # v # rest) = (name, Some v) # header_pairs rest"

text \<open>
  The value of the last pair whose name, lowered by \<open>lower\<close>, is \<open>k\<close>, if there is one.
\<close>

definition last_value :: "(string \<Rightarrow> string) \<Rightarrow> string \<Rightarrow> (string \<times> 'v) list \<Rightarrow> 'v option" where
  "last_value lower k ps =
     (case filter (\<lambda>p. lower (fst p) = k) ps of
        [] \<Rightarrow> None
      | x # xs \<Rightarrow> Some (snd (last (x # xs))))"

text \<open>The caller supplied a content-type header, the key compared case-insensitively.\<close>

definition supplies_content_type :: "string js_object \<Rightarrow> bool" where
  "supplies_content_type hs = (''content-type'' \<in> set (map (\<lambda>p. lower_ascii (fst p)) hs))"

text \<open>
  An instance of the parameter \<open>stringify\<close> for the examples: \<open>JSON.stringify\<close> on an
  object whose properties are integers and whose keys need no escaping, and on a BigInt,
  where it throws.
\<close>

datatype example_data = Flat "(string \<times> int) list" | BigInt int

fun stringify_members :: "(string \<times> int) list \<Rightarrow> string" where
  "stringify_members [] = []"
| "stringify_members [(k, n)] = [CHR 0x22] @ k @ [CHR 0x22] @ '':'' @ show_int n"
| "stringify_members ((k, n) # rest) =
     [CHR 0x22] @ k @ [CHR 0x22] @ '':'' @ show_int n @ '','' @ stringify_members rest"

fun stringify_example :: "example_data \<Rightarrow> string + string option" where
  "stringify_example (Flat obj) = Inr (Some (''{'' @ stringify_members obj @ ''}''))"
| "stringify_example (BigInt n) = Inl ''TypeError: Do not know how to serialize a BigInt''"

text \<open>One round of the header loop, on a name and its value.\<close>

definition put_pair ::
  "'j host \<Rightarrow> string option js_object \<Rightarrow> string \<times> string option \<Rightarrow> string option js_object" where
  "put_pair hst acc p = assign acc (toLowerCase hst (fst p)) (snd p)"

text \<open>
  An event is terminal in a state when its handler is registered there and the handler
  reaches a call of \<open>resolve\<close> or \<open>reject\<close>: the end of the body and a stream error
  once the response has arrived, a request error and an abort once the handlers of the
  request exist, the expiry of a timer that is due, and a redirect that takes the count
  above \<open>maxRedirects\<close>.
\<close>

fun terminal :: "request_options \<Rightarrow> 'j call \<Rightarrow> event \<Rightarrow> bool" where
  "terminal opts c EvTimeout = timerPending c"
| "terminal opts c EvRedirect = (req c \<and> redirectCount c + 1 > maxRedirects_of opts)"
| "terminal opts c (EvResponse r) = False"
| "terminal opts c (EvData chunk) = False"
| "terminal opts c EvEnd = (res c \<noteq> None)"
| "terminal opts c (EvResError e) = (res c \<noteq> None)"
| "terminal opts c (EvReqError e) = req c"
| "terminal opts c EvAbort = req c"

text \<open>The events that report progress only: a redirect, the response, a chunk of the body.\<close>

fun progress :: "event \<Rightarrow> bool" where
  "progress EvRedirect = True"
| "progress (EvResponse r) = True"
| "progress (EvData chunk) = True"
| "progress EvEnd = False"
| "progress (EvResError e) = False"
| "progress (EvReqError e) = False"
| "progress EvAbort = False"
| "progress EvTimeout = False"

text \<open>The number of redirect events in a sequence of events.\<close>

definition redirects :: "event list \<Rightarrow> int" where
  "redirects evs = int (length (filter (\<lambda>e. e = EvRedirect) evs))"

text \<open>An outcome is a timeout failure when it rejects with an error made from the timeout message.\<close>

fun is_timeout_error :: "'j outcome \<Rightarrow> bool" where
  "is_timeout_error (Rejected (NewError m)) = (take 22 m = ''Request timeout after '')"
| "is_timeout_error (Rejected (HostError e)) = False"
| "is_timeout_error (Resolved r) = False"

text \<open>
  A host for the examples. Its \<open>net.request\<close> throws on the URL \<open>not a url\<close> and on no
  other, its \<open>setHeader\<close> throws on a header name with a space in it, its proxy
  configuration succeeds, its decoder reads ASCII bytes and its \<open>toLowerCase\<close> lowers
  ASCII letters, its parser knows the JSON text of the object with the one property
  \<open>a\<close> of value 1 and throws on every other text, and its notation with an exponent
  is that of \<open>10^21\<close>. Parsed JSON values are flat objects with integer properties.
\<close>

definition ascii :: "buffer \<Rightarrow> string" where
  "ascii b = map (\<lambda>w. char_of (unat w)) b"

definition parse_example :: "string \<Rightarrow> string + (string \<times> int) list" where
  "parse_example s =
     (if s = ''{'' @ [CHR 0x22] @ ''a'' @ [CHR 0x22] @ '':1}'' then Inr [(''a'', 1)]
      else Inl ''SyntaxError: Unexpected token'')"

definition throw_on_bad_url :: "net_request_options \<Rightarrow> string option" where
  "throw_on_bad_url nro =
     (if nr_url nro = ''not a url'' then Some ''TypeError: Invalid URL'' else None)"

definition throw_on_bad_name :: "string \<Rightarrow> string \<Rightarrow> string option" where
  "throw_on_bad_name key v =
     (if CHR '' '' \<in> set key then Some (''Error: Invalid header name: '' @ key) else None)"

definition example_host :: "(string \<times> int) list host" where
  "example_host = \<lparr>dateNow = 1700000000000, mathRandom = ''0.25'',
     setProxy = (\<lambda>s rules. None), netRequest = throw_on_bad_url,
     setHeader = throw_on_bad_name, utf8 = ascii, jsonParse = parse_example,
     toLowerCase = lower_ascii, exponential = (\<lambda>n. ''1e+21'')\<rparr>"

text \<open>The calls that set a header of the request.\<close>

fun is_set_header :: "host_call \<Rightarrow> bool" where
  "is_set_header (CallSetHeader key v) = True"
| "is_set_header other = False"

text \<open>The options object handed to \<open>net.request\<close>, given the session in use.\<close>

definition net_options :: "string \<Rightarrow> request_options \<Rightarrow> session \<Rightarrow> net_request_options" where
  "net_options u opts s =
     \<lparr>nr_method = method_of opts, nr_url = u, nr_session = s,
      nr_redirect = (if followRedirect_of opts then Follow else Manual),
      nr_useSessionCookies = True\<rparr>"

section \<open>Lemmas about strings and objects\<close>

lemma map_of_obj_set: "map_of (obj_set obj k v) = (map_of obj)(k \<mapsto> v)"
  by (induction obj) (auto)

lemma keys_obj_set: "fst ` set (obj_set obj k v) = insert k (fst ` set obj)"
  by (simp add: dom_map_of_conv_image_fst[symmetric] map_of_obj_set)

lemma distinct_obj_set: "distinct (map fst obj) \<Longrightarrow> distinct (map fst (obj_set obj k v))"
  by (induction obj) (auto simp: keys_obj_set)

lemma map_of_assign:
  "map_of (assign obj k v) = (if k = ''__proto__'' then map_of obj else (map_of obj)(k \<mapsto> v))"
  by (simp add: assign_def map_of_obj_set)

lemma keys_assign:
  "fst ` set (assign obj k v) = (if k = ''__proto__'' then fst ` set obj else insert k (fst ` set obj))"
  by (simp add: assign_def keys_obj_set)

lemma distinct_assign: "distinct (map fst obj) \<Longrightarrow> distinct (map fst (assign obj k v))"
  by (simp add: assign_def distinct_obj_set)

lemma assign_content_type:
  "assign obj ''content-type'' v = obj_set obj ''content-type'' v"
  by (simp add: assign_def)

lemma header_pairs_drop:
  "i < length raw \<Longrightarrow> header_pairs (drop i raw) =
     (raw ! i, if i + 1 < length raw then Some (raw ! (i + 1)) else None) # header_pairs (drop (i + 2) raw)"
proof -
  assume a: "i < length raw"
  show ?thesis
  proof (cases "i + 1 < length raw")
    case True
    then have "drop i raw = raw ! i # raw ! (i + 1) # drop (i + 2) raw"
      using a by (simp add: Cons_nth_drop_Suc[symmetric])
    then show ?thesis using True by simp
  next
    case False
    then have "drop i raw = [raw ! i]" using a
      by (simp add: Cons_nth_drop_Suc[symmetric])
    moreover have "drop (i + 2) raw = []" using False by simp
    ultimately show ?thesis using False by simp
  qed
qed

lemma put_pair_simp: "put_pair hst acc (n, v) = assign acc (toLowerCase hst n) v"
  by (simp add: put_pair_def)

lemma extract_loop_fold:
  "extract_loop hst raw i acc = foldl (put_pair hst) acc (header_pairs (drop i raw))"
proof (induction hst raw i acc rule: extract_loop.induct)
  case (1 hst raw i acc)
  show ?case
  proof (cases "i < length raw")
    case True
    then show ?thesis
      using "1" by (subst extract_loop.simps) (simp add: header_pairs_drop put_pair_simp)
  next
    case False
    then show ?thesis by (subst extract_loop.simps) simp
  qed
qed

lemma last_value_snoc:
  "last_value lower k (ps @ [p]) = (if lower (fst p) = k then Some (snd p) else last_value lower k ps)"
proof (cases "lower (fst p) = k")
  case True
  then have "filter (\<lambda>q. lower (fst q) = k) (ps @ [p]) = filter (\<lambda>q. lower (fst q) = k) ps @ [p]"
    by simp
  then show ?thesis using True
    by (cases "filter (\<lambda>q. lower (fst q) = k) ps") (simp_all add: last_value_def)
next
  case False
  then show ?thesis by (simp add: last_value_def)
qed

lemma fold_get:
  "k \<noteq> ''__proto__'' \<Longrightarrow>
   map_of (foldl (put_pair hst) acc ps) k =
     (case last_value (toLowerCase hst) k ps of None \<Rightarrow> map_of acc k | Some v \<Rightarrow> Some v)"
proof (induction ps rule: rev_induct)
  case Nil
  show ?case by (simp add: last_value_def)
next
  case (snoc p ps)
  show ?case using snoc
    by (simp add: last_value_snoc put_pair_def map_of_assign)
qed

lemma fold_get_proto:
  "map_of (foldl (put_pair hst) acc ps) ''__proto__'' = map_of acc ''__proto__''"
proof (induction ps rule: rev_induct)
  case Nil
  show ?case by simp
next
  case (snoc p ps)
  show ?case using snoc by (simp add: put_pair_def map_of_assign)
qed

lemma fold_keys:
  "fst ` set (foldl (put_pair hst) acc ps)
     = fst ` set acc \<union> ((\<lambda>p. toLowerCase hst (fst p)) ` set ps - {''__proto__''})"
proof (induction ps rule: rev_induct)
  case Nil
  show ?case by simp
next
  case (snoc p ps)
  have "fst ` set (foldl (put_pair hst) acc (ps @ [p]))
      = (if toLowerCase hst (fst p) = ''__proto__'' then fst ` set (foldl (put_pair hst) acc ps)
         else insert (toLowerCase hst (fst p)) (fst ` set (foldl (put_pair hst) acc ps)))"
    by (simp add: put_pair_def keys_assign)
  then show ?case using snoc by auto
qed

lemma fold_distinct:
  "distinct (map fst acc) \<Longrightarrow> distinct (map fst (foldl (put_pair hst) acc ps))"
  by (induction ps rule: rev_induct) (auto simp: put_pair_def distinct_assign)

lemmas eval_strings = lower_ascii_def lower_char_def show_int_def show_nat.simps digit_char_def
  char_of_def bit_Suc_0_iff number_string_def

lemma obj_get_obj_set: "obj_get (obj_set obj k v) k' = (if k' = k then Some v else obj_get obj k')"
  by (simp add: obj_get_def map_of_obj_set)



lemma body_request_args_caller:
  assumes "Option.bind options opt_headers = Some r"
    and "(case d of Str s \<Rightarrow> Inr (Some s) | NonStr v \<Rightarrow> stringify v) = Inr body"
  shows "body_request_args m stringify d options h =
     Inr ((case options of None \<Rightarrow> no_options | Some opts \<Rightarrow> opts)
        \<lparr>opt_method := Some m, opt_body := map_option BodyString body, opt_headers := Some r\<rparr>,
      if \<not> is_string d \<and> \<not> truthy (obj_get (h ! r) ''content-type'')
      then h[r := obj_set (h ! r) ''content-type'' ''application/json''] else h)"
  using assms by (simp add: body_request_args_def Let_def assign_content_type)

lemma body_request_args_fresh:
  assumes "Option.bind options opt_headers = None"
    and "(case d of Str s \<Rightarrow> Inr (Some s) | NonStr v \<Rightarrow> stringify v) = Inr body"
  shows "body_request_args m stringify d options h =
     Inr ((case options of None \<Rightarrow> no_options | Some opts \<Rightarrow> opts)
        \<lparr>opt_method := Some m, opt_body := map_option BodyString body,
         opt_headers := Some (length h)\<rparr>,
      h @ [if is_string d then [] else [(''content-type'', ''application/json'')]])"
  using assms
  by (simp add: body_request_args_def Let_def alloc_def obj_get_def truthy_def assign_content_type)

lemma body_request_args_returns:
  assumes "body_request_args m stringify d options h = Inr (opts', h')"
  obtains body where "(case d of Str s \<Rightarrow> Inr (Some s) | NonStr v \<Rightarrow> stringify v) = Inr body"
  using assms by (auto simp: body_request_args_def split: sum.splits)

lemma body_request_args_spec:
  assumes valid: "\<forall>r. Option.bind options opt_headers = Some r \<longrightarrow> r < length h"
    and res: "body_request_args m stringify d options h = Inr (opts', h')"
  shows "\<exists>r. opt_headers opts' = Some r \<and> r < length h' \<and>
     opt_method opts' = Some m \<and>
     Inr (opt_body opts')
       = map_sum id (map_option BodyString) (case d of Str s \<Rightarrow> Inr (Some s) | NonStr v \<Rightarrow> stringify v) \<and>
     obj_get (h' ! r) ''content-type'' =
       (if is_string d \<or> truthy (obj_get (case Option.bind options opt_headers of Some r \<Rightarrow> h ! r | None \<Rightarrow> []) ''content-type'')
        then obj_get (case Option.bind options opt_headers of Some r \<Rightarrow> h ! r | None \<Rightarrow> []) ''content-type''
        else Some ''application/json'') \<and>
     (\<forall>k. k \<noteq> ''content-type'' \<longrightarrow>
        obj_get (h' ! r) k = obj_get (case Option.bind options opt_headers of Some r \<Rightarrow> h ! r | None \<Rightarrow> []) k)"
proof -
  from res obtain body where
    body: "(case d of Str s \<Rightarrow> Inr (Some s) | NonStr v \<Rightarrow> stringify v) = Inr body"
    by (rule body_request_args_returns)
  show ?thesis
  proof (cases "Option.bind options opt_headers")
    case None
    have "opts' = (case options of None \<Rightarrow> no_options | Some opts \<Rightarrow> opts)
          \<lparr>opt_method := Some m, opt_body := map_option BodyString body,
           opt_headers := Some (length h)\<rparr>"
      and "h' = h @ [if is_string d then [] else [(''content-type'', ''application/json'')]]"
      using res body_request_args_fresh[OF None body, of m h] by simp_all
    then show ?thesis using None body by (simp add: obj_get_def truthy_def)
  next
    case (Some r)
    then have r: "r < length h" using valid by simp
    have "opts' = (case options of None \<Rightarrow> no_options | Some opts \<Rightarrow> opts)
          \<lparr>opt_method := Some m, opt_body := map_option BodyString body, opt_headers := Some r\<rparr>"
      and "h' = (if \<not> is_string d \<and> \<not> truthy (obj_get (h ! r) ''content-type'')
        then h[r := obj_set (h ! r) ''content-type'' ''application/json''] else h)"
      using res body_request_args_caller[OF Some body, of m h] by simp_all
    then show ?thesis using Some r body by (simp add: obj_get_obj_set)
  qed
qed

section \<open>The wrappers\<close>

text \<open>
  Claim C1, as the code has it. For \<open>post\<close>, \<open>put\<close> and \<open>patch\<close>, whenever they reach
  the call of \<open>request\<close>: the body passed to \<open>request\<close> is the string itself when \<open>data\<close>
  is a string and \<open>JSON.stringify(data)\<close> otherwise. The headers object passed to
  \<open>request\<close> gets the entry \<open>content-type: application/json\<close> exactly when \<open>data\<close> is not
  a string and the caller's headers hold no non-empty value under the exact lowercase key
  \<open>content-type\<close>; every property under another key, another casing of the name
  included, keeps its value.
\<close>

theorem wrapper_body_and_content_type:
  assumes w: "wrapper = post_args \<or> wrapper = put_args \<or> wrapper = patch_args"
    and valid: "\<forall>r. Option.bind options opt_headers = Some r \<longrightarrow> r < length h"
    and res: "wrapper stringify d options h = Inr (opts', h')"
  shows "\<exists>r. opt_headers opts' = Some r \<and> r < length h' \<and>
     Inr (opt_body opts')
       = map_sum id (map_option BodyString) (case d of Str s \<Rightarrow> Inr (Some s) | NonStr v \<Rightarrow> stringify v) \<and>
     obj_get (h' ! r) ''content-type'' =
       (if is_string d \<or> truthy (obj_get (case Option.bind options opt_headers of Some r \<Rightarrow> h ! r | None \<Rightarrow> []) ''content-type'')
        then obj_get (case Option.bind options opt_headers of Some r \<Rightarrow> h ! r | None \<Rightarrow> []) ''content-type''
        else Some ''application/json'') \<and>
     (\<forall>k. k \<noteq> ''content-type'' \<longrightarrow>
        obj_get (h' ! r) k = obj_get (case Option.bind options opt_headers of Some r \<Rightarrow> h ! r | None \<Rightarrow> []) k)"
proof -
  from w obtain m where "wrapper = body_request_args m"
    unfolding post_args_def put_args_def patch_args_def by blast
  then have "body_request_args m stringify d options h = Inr (opts', h')" using res by simp
  from body_request_args_spec[OF valid this] show ?thesis by blast
qed

text \<open>
  The spec's example \<open>post(url, {x: 1})\<close> with no options: the body is the JSON text and
  the header is injected.
\<close>

theorem wrapper_body_and_content_type_witness:
  "\<exists>opts' h' r. post_args stringify_example (NonStr (Flat [(''x'', 1)])) None [] = Inr (opts', h') \<and>
     opt_headers opts' = Some r \<and>
     opt_body opts' = Some (BodyString (''{'' @ [CHR 0x22] @ ''x'' @ [CHR 0x22] @ '':1}'')) \<and>
     obj_get (h' ! r) ''content-type'' = Some ''application/json''"
proof -
  have v: "\<forall>r. Option.bind (None :: request_options option) opt_headers = Some r \<longrightarrow> r < length ([] :: heap)"
    by simp
  obtain opts' h' where
    res: "post_args stringify_example (NonStr (Flat [(''x'', 1)])) None [] = Inr (opts', h')"
    by (simp add: post_args_def body_request_args_def alloc_def)
  from wrapper_body_and_content_type[of post_args None "[]" stringify_example
      "NonStr (Flat [(''x'', 1)])" opts' h', OF _ v res]
  obtain r where "opt_headers opts' = Some r"
    "opt_body opts' = Some (BodyString (''{'' @ [CHR 0x22] @ ''x'' @ [CHR 0x22] @ '':1}''))"
    "obj_get (h' ! r) ''content-type'' = Some ''application/json''"
    by (auto simp: eval_strings obj_get_def truthy_def)
  then show ?thesis using res by blast
qed

text \<open>
  Claim C1 as stated fails: the caller supplies \<open>Content-Type: text/plain\<close>, which is a
  content-type header under a case-insensitive comparison, and the wrapper still adds
  \<open>content-type: application/json\<close> to the same object, since it reads only the exact
  lowercase key.
\<close>

theorem content_type_case_counterexample:
  "supplies_content_type [(''Content-Type'', ''text/plain'')] \<and>
   obj_get [(''Content-Type'', ''text/plain'')] ''content-type'' = None \<and>
   map_sum id snd (post_args stringify_example (NonStr (Flat [(''x'', 1)]))
          (Some (no_options\<lparr>opt_headers := Some 0\<rparr>))
          [[(''Content-Type'', ''text/plain'')]])
     = Inr [[(''Content-Type'', ''text/plain''), (''content-type'', ''application/json'')]]"
  by (simp add: supplies_content_type_def post_args_def body_request_args_def obj_get_def
      truthy_def no_options_def assign_def eval_strings)





section \<open>The headers of the response\<close>

text \<open>
  Claim C6, as the code has it. The headers of the response are built from the raw
  alternating name/value sequence: looking up a key other than \<open>__proto__\<close> gives the
  value of the last pair whose lowercased name is that key; the keys are exactly the
  lowercased names other than \<open>__proto__\<close>, which is never a key; and no key occurs
  twice.
\<close>

theorem response_headers_lowercased_last_wins:
  "(k \<noteq> ''__proto__'' \<longrightarrow>
      obj_get (extractHeaders hst raw) k
        = last_value (toLowerCase hst) k (header_pairs (case raw of None \<Rightarrow> [] | Some r \<Rightarrow> r)))
   \<and> obj_get (extractHeaders hst raw) ''__proto__'' = None
   \<and> fst ` set (extractHeaders hst raw)
       = (\<lambda>p. toLowerCase hst (fst p)) ` set (header_pairs (case raw of None \<Rightarrow> [] | Some r \<Rightarrow> r))
           - {''__proto__''}
   \<and> distinct (map fst (extractHeaders hst raw))"
proof -
  have e: "extractHeaders hst raw
      = foldl (put_pair hst) [] (header_pairs (case raw of None \<Rightarrow> [] | Some r \<Rightarrow> r))"
    by (simp add: extractHeaders_def extract_loop_fold)
  have keys: "fst ` set (extractHeaders hst raw)
       = (\<lambda>p. toLowerCase hst (fst p)) ` set (header_pairs (case raw of None \<Rightarrow> [] | Some r \<Rightarrow> r))
           - {''__proto__''}"
    unfolding e fold_keys by simp
  have get: "k \<noteq> ''__proto__'' \<longrightarrow>
      obj_get (extractHeaders hst raw) k
        = last_value (toLowerCase hst) k (header_pairs (case raw of None \<Rightarrow> [] | Some r \<Rightarrow> r))"
    unfolding e obj_get_def by (simp add: fold_get split: option.splits)
  have proto: "obj_get (extractHeaders hst raw) ''__proto__'' = None"
    unfolding e obj_get_def fold_get_proto by simp
  have "distinct (map fst (extractHeaders hst raw))"
    unfolding e by (rule fold_distinct) simp
  then show ?thesis using keys get proto by blast
qed

text \<open>Two \<open>Set-Cookie\<close> lines in different casings: the later value is kept.\<close>

theorem response_headers_lowercased_last_wins_witness:
  "obj_get (extractHeaders example_host
       (Some [''Set-Cookie'', ''a=1'', ''X-Id'', ''7'', ''set-cookie'', ''b=2'']))
     ''set-cookie'' = Some (Some ''b=2'')
   \<and> fst ` set (extractHeaders example_host
       (Some [''Set-Cookie'', ''a=1'', ''X-Id'', ''7'', ''set-cookie'', ''b=2'']))
       = {''set-cookie'', ''x-id''}"
  using response_headers_lowercased_last_wins
    [of "''set-cookie''" example_host
        "Some [''Set-Cookie'', ''a=1'', ''X-Id'', ''7'', ''set-cookie'', ''b=2'']"]
  by (auto simp: last_value_def example_host_def eval_strings)

text \<open>
  Claim C6 as stated fails: the name \<open>__proto__\<close> occurs twice after lowercasing, its
  last value is \<open>b\<close>, and the headers object holds nothing.
\<close>

theorem proto_header_counterexample:
  "last_value lower_ascii ''__proto__'' (header_pairs [''__Proto__'', ''a'', ''__proto__'', ''b''])
     = Some (Some ''b'')
   \<and> extractHeaders example_host (Some [''__Proto__'', ''a'', ''__proto__'', ''b'']) = []"
  by (simp add: last_value_def extractHeaders_def extract_loop.simps assign_def example_host_def
      eval_strings)

section \<open>The request and its events\<close>

lemmas call_defs = settle_def resolve_def reject_def host_do_def cleanup_def clearTimer_def

lemma setHeaders_frame:
  "\<exists>log. snd (setHeaders hst kvs c) = c\<lparr>calls := calls c @ log\<rparr> \<and> list_all is_set_header log"
proof (induction kvs arbitrary: c)
  case Nil
  have "snd (setHeaders hst [] c) = c\<lparr>calls := calls c @ []\<rparr> \<and> list_all is_set_header []"
    by simp
  then show ?case by blast
next
  case (Cons kv kvs)
  obtain k v where kv: "kv = (k, v)" by (cases kv)
  show ?case
  proof (cases "setHeader hst k v")
    case (Some e)
    then have "snd (setHeaders hst (kv # kvs) c) = c\<lparr>calls := calls c @ [CallSetHeader k v]\<rparr>
        \<and> list_all is_set_header [CallSetHeader k v]"
      by (simp add: kv host_do_def)
    then show ?thesis by blast
  next
    case None
    from Cons[of "host_do (CallSetHeader k v) c"] obtain log where
      log: "snd (setHeaders hst kvs (host_do (CallSetHeader k v) c))
          = (host_do (CallSetHeader k v) c)\<lparr>calls := calls (host_do (CallSetHeader k v) c) @ log\<rparr>"
        "list_all is_set_header log" by blast
    have "snd (setHeaders hst (kv # kvs) c) = c\<lparr>calls := calls c @ (CallSetHeader k v # log)\<rparr>
        \<and> list_all is_set_header (CallSetHeader k v # log)"
      using log None by (simp add: kv host_do_def)
    then show ?thesis by blast
  qed
qed

text \<open>The state after setupProxy.\<close>

lemma setupProxy_none:
  "opt_proxy opts = None \<or> opt_proxy opts = Some ProxyFalse \<Longrightarrow> setupProxy hst opts c = (None, c)"
  by (auto simp: setupProxy_def)

lemma setupProxy_descriptor:
  "opt_proxy opts = Some (ProxyDescriptor p) \<Longrightarrow>
   setupProxy hst opts c =
     (setProxy hst (FromPartition (partition_name hst) False) (proxy_rules hst p),
      c\<lparr>tempPartition := Some (partition_name hst),
        sessionToUse := FromPartition (partition_name hst) False,
        calls := calls c @ [CallFromPartition (partition_name hst) False,
                            CallSetProxy (FromPartition (partition_name hst) False) (proxy_rules hst p)]\<rparr>)"
  by (simp add: setupProxy_def host_do_def Let_def)

lemma setupProxy_frame:
  "settled (snd (setupProxy hst opts c)) = settled c"
  "attempts (snd (setupProxy hst opts c)) = attempts c"
  "req (snd (setupProxy hst opts c)) = req c"
  "timeoutId (snd (setupProxy hst opts c)) = timeoutId c"
  "timerPending (snd (setupProxy hst opts c)) = timerPending c"
  "chunks (snd (setupProxy hst opts c)) = chunks c"
  "redirectCount (snd (setupProxy hst opts c)) = redirectCount c"
  "res (snd (setupProxy hst opts c)) = res c"
  by (simp_all add: setupProxy_def host_do_def Let_def split: option.splits proxy_setting.splits)


text \<open>The state after the callback of then.\<close>

lemma start_request_cases:
  obtains
    (thrown) e log where
      "start_request hst u opts h c
         = (Some e, c\<lparr>calls := calls c @ CallNetRequest (net_options u opts (sessionToUse c)) # log\<rparr>)"
      "list_all is_set_header log"
  | (started) log where
      "start_request hst u opts h c
         = (None, c\<lparr>calls := calls c @ CallNetRequest (net_options u opts (sessionToUse c)) # log
                          @ (if timeout_of opts > 0 then [CallSetTimeout (timeout_of opts)] else [])
                          @ (case opt_body opts of None \<Rightarrow> []
                             | Some b \<Rightarrow> if body_truthy (Some b) then [CallWrite b] else [])
                          @ [CallEnd],
                   timeoutId := (timeout_of opts > 0 \<or> timeoutId c),
                   timerPending := (timeout_of opts > 0 \<or> timerPending c),
                   req := True\<rparr>)"
      "list_all is_set_header log"
      "netRequest hst (net_options u opts (sessionToUse c)) = None"
proof -
  let ?nro = "net_options u opts (sessionToUse c)"
  let ?c1 = "host_do (CallNetRequest ?nro) c"
  show ?thesis
  proof (cases "netRequest hst ?nro")
    case (Some e)
    then have "start_request hst u opts h c = (Some e, c\<lparr>calls := calls c @ CallNetRequest ?nro # []\<rparr>)"
      by (simp add: start_request_def net_options_def host_do_def Let_def)
    then show ?thesis using thrown[of e "[]"] by simp
  next
    case None
    obtain r c2 where sh: "setHeaders hst (entries (headers_of opts h)) ?c1 = (r, c2)"
      by (cases "setHeaders hst (entries (headers_of opts h)) ?c1")
    from setHeaders_frame[of hst "entries (headers_of opts h)" ?c1] sh obtain log where
      log: "c2 = ?c1\<lparr>calls := calls ?c1 @ log\<rparr>" "list_all is_set_header log" by auto
    show ?thesis
    proof (cases r)
      case (Some e)
      have "start_request hst u opts h c = (Some e, c2)"
        using None sh Some unfolding start_request_def net_options_def Let_def by simp
      then have "start_request hst u opts h c
          = (Some e, c\<lparr>calls := calls c @ CallNetRequest ?nro # log\<rparr>)"
        using log by (simp add: host_do_def)
      then show ?thesis using thrown log(2) by blast
    next
      case None2: None
      have "start_request hst u opts h c
          = (None, c\<lparr>calls := calls c @ CallNetRequest ?nro # log
                          @ (if timeout_of opts > 0 then [CallSetTimeout (timeout_of opts)] else [])
                          @ (case opt_body opts of None \<Rightarrow> []
                             | Some b \<Rightarrow> if body_truthy (Some b) then [CallWrite b] else [])
                          @ [CallEnd],
                   timeoutId := (timeout_of opts > 0 \<or> timeoutId c),
                   timerPending := (timeout_of opts > 0 \<or> timerPending c),
                   req := True\<rparr>)"
        using None sh None2 log(1) unfolding start_request_def net_options_def[symmetric] Let_def
        by (simp add: host_do_def net_options_def split: option.splits)
      then show ?thesis using started log(2) None by blast
    qed
  qed
qed


lemma setup_fields:
  "settled (snd (setupProxy hst opts init_call)) = None"
  "attempts (snd (setupProxy hst opts init_call)) = []"
  "\<not> req (snd (setupProxy hst opts init_call))"
  "\<not> timeoutId (snd (setupProxy hst opts init_call))"
  "\<not> timerPending (snd (setupProxy hst opts init_call))"
  "chunks (snd (setupProxy hst opts init_call)) = []"
  "redirectCount (snd (setupProxy hst opts init_call)) = 0"
  "res (snd (setupProxy hst opts init_call)) = None"
  by (simp_all add: setupProxy_frame init_call_def)

lemma setup_calls:
  "calls (snd (setupProxy hst opts init_call)) =
     (case opt_proxy opts of
        Some (ProxyDescriptor p) \<Rightarrow>
          [CallFromPartition (partition_name hst) False,
           CallSetProxy (FromPartition (partition_name hst) False) (proxy_rules hst p)]
      | Some ProxyFalse \<Rightarrow> []
      | None \<Rightarrow> [])"
  by (simp add: setupProxy_def host_do_def init_call_def Let_def
      split: option.splits proxy_setting.splits)

lemma setup_session:
  "sessionToUse (snd (setupProxy hst opts init_call)) =
     (case opt_proxy opts of
        Some (ProxyDescriptor p) \<Rightarrow> FromPartition (partition_name hst) False
      | Some ProxyFalse \<Rightarrow> DefaultSession
      | None \<Rightarrow> DefaultSession)"
  "tempPartition (snd (setupProxy hst opts init_call)) =
     (case opt_proxy opts of
        Some (ProxyDescriptor p) \<Rightarrow> Some (partition_name hst)
      | Some ProxyFalse \<Rightarrow> None
      | None \<Rightarrow> None)"
  by (simp_all add: setupProxy_def host_do_def init_call_def Let_def
      split: option.splits proxy_setting.splits)

lemma setup_result:
  "fst (setupProxy hst opts init_call) =
     (case opt_proxy opts of
        Some (ProxyDescriptor p) \<Rightarrow>
          setProxy hst (FromPartition (partition_name hst) False) (proxy_rules hst p)
      | Some ProxyFalse \<Rightarrow> None
      | None \<Rightarrow> None)"
  by (simp add: setupProxy_def host_do_def init_call_def Let_def
      split: option.splits proxy_setting.splits)

text \<open>The three ways request can start.\<close>

lemma request_cases:
  obtains
    (setup_failed) e where
      "fst (setupProxy hst opts init_call) = Some e"
      "request hst u opts h
         = reject (NewError (''Failed to setup proxy: '' @ e))
             (cleanup (snd (setupProxy hst opts init_call)))"
  | (thrown) e log where
      "fst (setupProxy hst opts init_call) = None"
      "request hst u opts h
         = reject (NewError (''Failed to setup proxy: '' @ e))
             (cleanup ((snd (setupProxy hst opts init_call))
                \<lparr>calls := calls (snd (setupProxy hst opts init_call))
                   @ CallNetRequest (net_options u opts
                        (sessionToUse (snd (setupProxy hst opts init_call)))) # log\<rparr>))"
      "list_all is_set_header log"
  | (started) log where
      "fst (setupProxy hst opts init_call) = None"
      "request hst u opts h
         = (snd (setupProxy hst opts init_call))
             \<lparr>calls := calls (snd (setupProxy hst opts init_call))
                   @ CallNetRequest (net_options u opts
                        (sessionToUse (snd (setupProxy hst opts init_call)))) # log
                   @ (if timeout_of opts > 0 then [CallSetTimeout (timeout_of opts)] else [])
                   @ (case opt_body opts of None \<Rightarrow> []
                      | Some b \<Rightarrow> if body_truthy (Some b) then [CallWrite b] else [])
                   @ [CallEnd],
              timeoutId := timeout_of opts > 0,
              timerPending := timeout_of opts > 0,
              req := True\<rparr>"
      "list_all is_set_header log"
      "netRequest hst (net_options u opts (sessionToUse (snd (setupProxy hst opts init_call)))) = None"
proof -
  obtain r s0 where s0: "setupProxy hst opts init_call = (r, s0)"
    by (cases "setupProxy hst opts init_call")
  show ?thesis
  proof (cases r)
    case (Some e)
    then have "request hst u opts h = reject (NewError (''Failed to setup proxy: '' @ e)) (cleanup s0)"
      using s0 by (simp add: request_def)
    then show ?thesis using setup_failed[of e] s0 Some by simp
  next
    case None
    have f: "\<not> timeoutId s0" "\<not> timerPending s0"
      using setup_fields(4,5)[of hst opts] s0 by simp_all
    show ?thesis
    proof (cases rule: start_request_cases[of hst u opts h s0])
      case (thrown e log)
      then have "request hst u opts h
         = reject (NewError (''Failed to setup proxy: '' @ e))
             (cleanup (s0\<lparr>calls := calls s0 @ CallNetRequest (net_options u opts (sessionToUse s0)) # log\<rparr>))"
        using s0 None by (simp add: request_def)
      then show ?thesis using s0 None thrown(2) that(2)[of e log] by simp
    next
      case (started log)
      then have "request hst u opts h
         = s0\<lparr>calls := calls s0 @ CallNetRequest (net_options u opts (sessionToUse s0)) # log
                   @ (if timeout_of opts > 0 then [CallSetTimeout (timeout_of opts)] else [])
                   @ (case opt_body opts of None \<Rightarrow> []
                      | Some b \<Rightarrow> if body_truthy (Some b) then [CallWrite b] else [])
                   @ [CallEnd],
              timeoutId := timeout_of opts > 0,
              timerPending := timeout_of opts > 0,
              req := True\<rparr>"
        using s0 None f by (simp add: request_def)
      then show ?thesis using s0 None started(2,3) that(3)[of log] by simp
    qed
  qed
qed

lemma request_live:
  assumes "req (request hst u opts h)"
  shows "settled (request hst u opts h) = None"
    and "attempts (request hst u opts h) = []"
    and "chunks (request hst u opts h) = []"
    and "redirectCount (request hst u opts h) = 0"
    and "res (request hst u opts h) = None"
    and "timerPending (request hst u opts h) = (timeout_of opts > 0)"
    and "timeoutId (request hst u opts h) = (timeout_of opts > 0)"
    and "CallAbort \<notin> set (calls (request hst u opts h))"
proof -
  have "settled (request hst u opts h) = None
    \<and> attempts (request hst u opts h) = []
    \<and> chunks (request hst u opts h) = []
    \<and> redirectCount (request hst u opts h) = 0
    \<and> res (request hst u opts h) = None
    \<and> timerPending (request hst u opts h) = (timeout_of opts > 0)
    \<and> timeoutId (request hst u opts h) = (timeout_of opts > 0)
    \<and> CallAbort \<notin> set (calls (request hst u opts h))"
  proof (cases rule: request_cases[of hst opts u h])
    case (setup_failed e)
    then have "\<not> req (request hst u opts h)"
      by (simp add: call_defs setup_fields split: option.splits)
    then show ?thesis using assms by simp
  next
    case (thrown e log)
    then have "\<not> req (request hst u opts h)"
      by (simp add: call_defs setup_fields split: option.splits)
    then show ?thesis using assms by simp
  next
    case (started log)
    have "CallAbort \<notin> set log" using started(3) by (auto simp: list_all_iff)
    then show ?thesis using started(2)
      by (auto simp: setup_fields setup_calls split: option.splits proxy_setting.splits)
  qed
  then show "settled (request hst u opts h) = None"
    and "attempts (request hst u opts h) = []"
    and "chunks (request hst u opts h) = []"
    and "redirectCount (request hst u opts h) = 0"
    and "res (request hst u opts h) = None"
    and "timerPending (request hst u opts h) = (timeout_of opts > 0)"
    and "timeoutId (request hst u opts h) = (timeout_of opts > 0)"
    and "CallAbort \<notin> set (calls (request hst u opts h))" by simp_all
qed

lemma run_Nil: "run hst u opts c [] = c"
  by (simp add: run_def)

lemma run_Cons: "run hst u opts c (ev # evs) = run hst u opts (handle hst u opts c ev) evs"
  by (simp add: run_def)

lemma run_append: "run hst u opts c (evs @ evs') = run hst u opts (run hst u opts c evs) evs'"
  by (simp add: run_def)

lemma run_snoc: "run hst u opts c (evs @ [ev]) = handle hst u opts (run hst u opts c evs) ev"
  by (simp add: run_def)

text \<open>An invariant of the handlers is an invariant of every run.\<close>

lemma run_invariant:
  assumes "P c" and "\<And>c ev. P c \<Longrightarrow> P (handle hst u opts c ev)"
  shows "P (run hst u opts c evs)"
  using assms(1)
proof (induction evs arbitrary: c)
  case Nil
  then show ?case by (simp add: run_Nil)
next
  case (Cons ev evs)
  then show ?case using assms(2) by (simp add: run_Cons)
qed

subsection \<open>The promise\<close>

lemma handle_first_attempt:
  "settled c = (case attempts c of [] \<Rightarrow> None | a # as \<Rightarrow> Some a) \<Longrightarrow>
   settled (handle hst u opts c ev)
     = (case attempts (handle hst u opts c ev) of [] \<Rightarrow> None | a # as \<Rightarrow> Some a)"
  by (cases ev) (auto simp: call_defs Let_def split: option.splits sum.splits list.splits)

lemma request_first_attempt:
  "settled (request hst u opts h)
     = (case attempts (request hst u opts h) of [] \<Rightarrow> None | a # as \<Rightarrow> Some a)"
  by (cases rule: request_cases[of hst opts u h])
     (simp_all add: call_defs setup_fields split: option.splits)

lemma handle_settled_stable:
  "settled c = Some out \<Longrightarrow> settled (handle hst u opts c ev) = Some out"
  by (cases ev) (auto simp: call_defs Let_def split: option.splits sum.splits)

lemma run_settled_stable:
  "settled c = Some out \<Longrightarrow> settled (run hst u opts c evs) = Some out"
  by (rule run_invariant[where P = "\<lambda>c. settled c = Some out"]) (simp_all add: handle_settled_stable)

lemma terminal_settles:
  "terminal opts c ev \<Longrightarrow> settled (handle hst u opts c ev) \<noteq> None"
  by (cases ev) (auto simp: call_defs Let_def split: option.splits sum.splits)

lemma setup_failure_settles:
  "fst (setupProxy hst opts init_call) = Some e \<Longrightarrow>
   settled (request hst u opts h) = Some (Rejected (NewError (''Failed to setup proxy: '' @ e)))"
  by (cases rule: request_cases[of hst opts u h])
     (simp_all add: call_defs setup_fields split: option.splits)

text \<open>
  Claim C2. Whatever events the host delivers after \<open>request\<close>, in whatever order: the
  state of the promise is the first outcome passed to \<open>resolve\<close> or \<open>reject\<close> and no
  other; once the promise has an outcome, no later event changes it; every terminal
  event leaves the promise settled; and a failure of the proxy setup settles it before
  any event.
\<close>

theorem settles_exactly_once:
  "settled (run hst u opts (request hst u opts h) evs)
     = (case attempts (run hst u opts (request hst u opts h) evs) of
          [] \<Rightarrow> None | first # later \<Rightarrow> Some first)
   \<and> (settled (run hst u opts (request hst u opts h) evs) = Some out \<longrightarrow>
        settled (run hst u opts (request hst u opts h) (evs @ evs')) = Some out)
   \<and> (terminal opts (run hst u opts (request hst u opts h) evs) ev \<longrightarrow>
        settled (run hst u opts (request hst u opts h) (evs @ [ev])) \<noteq> None)
   \<and> (fst (setupProxy hst opts init_call) \<noteq> None \<longrightarrow>
        settled (request hst u opts h) \<noteq> None)"
proof -
  have "settled (run hst u opts (request hst u opts h) evs)
     = (case attempts (run hst u opts (request hst u opts h) evs) of
          [] \<Rightarrow> None | first # later \<Rightarrow> Some first)"
    by (rule run_invariant[where P = "\<lambda>c. settled c = (case attempts c of [] \<Rightarrow> None | a # as \<Rightarrow> Some a)"])
       (simp_all add: request_first_attempt handle_first_attempt)
  moreover have "settled (run hst u opts (request hst u opts h) evs) = Some out \<longrightarrow>
        settled (run hst u opts (request hst u opts h) (evs @ evs')) = Some out"
    by (simp add: run_append run_settled_stable)
  moreover have "terminal opts (run hst u opts (request hst u opts h) evs) ev \<longrightarrow>
        settled (run hst u opts (request hst u opts h) (evs @ [ev])) \<noteq> None"
    by (simp add: run_snoc terminal_settles)
  moreover have "fst (setupProxy hst opts init_call) \<noteq> None \<longrightarrow>
        settled (request hst u opts h) \<noteq> None"
    using setup_failure_settles[of hst opts _ u h] by auto
  ultimately show ?thesis by blast
qed

lemmas eval_call = request_def setupProxy_def start_request_def init_call_def call_defs
  no_options_def example_host_def throw_on_bad_url_def method_of_def headers_of_def
  timeout_of_def responseType_of_def followRedirect_of_def maxRedirects_of_def entries_def
  Let_def run_def timeout_message_def redirects_message_def partition_name_def proxy_rules_def
  parse_example_def ascii_def extractHeaders_def extract_loop.simps net_options_def
  throw_on_bad_name_def number_string_def assign_def

text \<open>
  The timer expires and the abort event of the aborted request follows: \<open>reject\<close> is
  called twice and the caller gets the timeout error only.
\<close>

theorem settles_exactly_once_witness:
  "settled (run example_host ''http://a'' no_options
       (request example_host ''http://a'' no_options []) [EvTimeout, EvAbort])
     = Some (Rejected (NewError ''Request timeout after 30000ms''))
   \<and> attempts (run example_host ''http://a'' no_options
       (request example_host ''http://a'' no_options []) [EvTimeout, EvAbort])
     = [Rejected (NewError ''Request timeout after 30000ms''),
        Rejected (NewError ''Request aborted'')]"
  using settles_exactly_once[of example_host "''http://a''" no_options "[]" "[EvTimeout]"
      "Rejected (NewError ''Request timeout after 30000ms'')" "[EvAbort]" EvTimeout]
  by (simp add: eval_call eval_strings)

subsection \<open>Redirects\<close>

lemma handle_progress_redirect_limit:
  assumes "progress ev"
    and "req c"
    and "settled c = (if redirectCount c > maxRedirects_of opts
                      then Some (Rejected (NewError (redirects_message hst (maxRedirects_of opts))))
                      else None)"
    and "(CallAbort \<in> set (calls c)) = (redirectCount c > maxRedirects_of opts)"
  shows "req (handle hst u opts c ev)
    \<and> redirectCount (handle hst u opts c ev) = redirectCount c + (if ev = EvRedirect then 1 else 0)
    \<and> settled (handle hst u opts c ev)
        = (if redirectCount (handle hst u opts c ev) > maxRedirects_of opts
           then Some (Rejected (NewError (redirects_message hst (maxRedirects_of opts))))
           else None)
    \<and> (CallAbort \<in> set (calls (handle hst u opts c ev)))
        = (redirectCount (handle hst u opts c ev) > maxRedirects_of opts)"
  using assms
  by (cases ev) (auto simp: call_defs Let_def split: option.splits if_splits)

lemma run_progress_redirect_limit:
  assumes "list_all progress evs"
    and "req c"
    and "settled c = (if redirectCount c > maxRedirects_of opts
                      then Some (Rejected (NewError (redirects_message hst (maxRedirects_of opts))))
                      else None)"
    and "(CallAbort \<in> set (calls c)) = (redirectCount c > maxRedirects_of opts)"
  shows "redirectCount (run hst u opts c evs) = redirectCount c + redirects evs
    \<and> settled (run hst u opts c evs)
        = (if redirectCount c + redirects evs > maxRedirects_of opts
           then Some (Rejected (NewError (redirects_message hst (maxRedirects_of opts))))
           else None)
    \<and> (CallAbort \<in> set (calls (run hst u opts c evs)))
        = (redirectCount c + redirects evs > maxRedirects_of opts)"
  using assms
proof (induction evs arbitrary: c)
  case Nil
  then show ?case by (simp add: run_Nil redirects_def)
next
  case (Cons ev evs)
  from Cons.prems have p: "progress ev" "list_all progress evs" by simp_all
  note step = handle_progress_redirect_limit[OF p(1) Cons.prems(2,3,4), of u]
  have r: "redirects (ev # evs) = (if ev = EvRedirect then 1 else 0) + redirects evs"
    by (simp add: redirects_def)
  from Cons.IH[of "handle hst u opts c ev", OF p(2)] step
  show ?case by (simp add: run_Cons r add.assoc)
qed

lemma handle_redirect_attempts:
  assumes "Rejected (NewError (redirects_message hst (maxRedirects_of opts))) \<in> set (attempts c)
             \<longrightarrow> redirectCount c > maxRedirects_of opts"
  shows "(Rejected (NewError (redirects_message hst (maxRedirects_of opts)))
             \<in> set (attempts (handle hst u opts c ev))
             \<longrightarrow> redirectCount (handle hst u opts c ev) > maxRedirects_of opts)"
  using assms
  by (cases ev)
     (auto simp: call_defs Let_def redirects_message_def timeout_message_def
           split: option.splits sum.splits if_splits)

lemma request_redirect_attempts:
  "Rejected (NewError (redirects_message hst n)) \<notin> set (attempts (request hst u opts h))"
  by (cases rule: request_cases[of hst opts u h])
     (simp_all add: call_defs setup_fields redirects_message_def split: option.splits)

text \<open>
  Claim C3. After a request has started, with \<open>maxRedirects\<close> not negative, and while the
  host reports progress only (redirects, the response, chunks of the body): the count is
  the number of redirect events, and the call has rejected with the error
  \<open>Too many redirects\<close>, which carries the configured maximum, and the request has been
  aborted exactly when that number exceeds \<open>maxRedirects\<close>. In every run, that error
  is never passed to \<open>reject\<close> while the count is at most \<open>maxRedirects\<close>. The handler
  itself, on a call that has not settled, rejects and aborts exactly when the
  incremented count exceeds \<open>maxRedirects\<close>.
\<close>

theorem redirect_limit:
  "(req (request hst u opts h) \<and> list_all progress evs \<and> 0 \<le> maxRedirects_of opts \<longrightarrow>
      redirectCount (run hst u opts (request hst u opts h) evs) = redirects evs
      \<and> settled (run hst u opts (request hst u opts h) evs)
          = (if redirects evs > maxRedirects_of opts
             then Some (Rejected (NewError (''Too many redirects (>'' @ number_string hst (maxRedirects_of opts) @ '')'')))
             else None)
      \<and> (CallAbort \<in> set (calls (run hst u opts (request hst u opts h) evs)))
          = (redirects evs > maxRedirects_of opts))
   \<and> (Rejected (NewError (''Too many redirects (>'' @ number_string hst (maxRedirects_of opts) @ '')''))
         \<in> set (attempts (run hst u opts (request hst u opts h) evs'))
       \<longrightarrow> redirectCount (run hst u opts (request hst u opts h) evs') > maxRedirects_of opts)
   \<and> (req c \<and> settled c = None \<longrightarrow>
        redirectCount (handle hst u opts c EvRedirect) = redirectCount c + 1
        \<and> settled (handle hst u opts c EvRedirect)
            = (if redirectCount c + 1 > maxRedirects_of opts
               then Some (Rejected (NewError (''Too many redirects (>'' @ number_string hst (maxRedirects_of opts) @ '')'')))
               else None)
        \<and> (CallAbort \<in> set (calls (handle hst u opts c EvRedirect)))
            = (redirectCount c + 1 > maxRedirects_of opts \<or> CallAbort \<in> set (calls c)))"
proof -
  let ?start = "request hst u opts h"
  have a: "req ?start \<and> list_all progress evs \<and> 0 \<le> maxRedirects_of opts \<longrightarrow>
      redirectCount (run hst u opts ?start evs) = redirects evs
      \<and> settled (run hst u opts ?start evs)
          = (if redirects evs > maxRedirects_of opts
             then Some (Rejected (NewError (redirects_message hst (maxRedirects_of opts))))
             else None)
      \<and> (CallAbort \<in> set (calls (run hst u opts ?start evs)))
          = (redirects evs > maxRedirects_of opts)"
  proof (intro impI, elim conjE)
    assume live: "req ?start" and p: "list_all progress evs" and m: "0 \<le> maxRedirects_of opts"
    note l = request_live[OF live]
    have s: "settled ?start = (if redirectCount ?start > maxRedirects_of opts
                      then Some (Rejected (NewError (redirects_message hst (maxRedirects_of opts))))
                      else None)"
      using l(1,4) m by simp
    have ab: "(CallAbort \<in> set (calls ?start)) = (redirectCount ?start > maxRedirects_of opts)"
      using l(4,8) m by simp
    from run_progress_redirect_limit[OF p live s ab, of u] l(4)
    show "redirectCount (run hst u opts ?start evs) = redirects evs
      \<and> settled (run hst u opts ?start evs)
          = (if redirects evs > maxRedirects_of opts
             then Some (Rejected (NewError (redirects_message hst (maxRedirects_of opts))))
             else None)
      \<and> (CallAbort \<in> set (calls (run hst u opts ?start evs)))
          = (redirects evs > maxRedirects_of opts)" by simp
  qed
  have b: "Rejected (NewError (redirects_message hst (maxRedirects_of opts)))
         \<in> set (attempts (run hst u opts ?start evs'))
       \<longrightarrow> redirectCount (run hst u opts ?start evs') > maxRedirects_of opts"
    by (rule run_invariant[where P = "\<lambda>c. Rejected (NewError (redirects_message hst (maxRedirects_of opts)))
           \<in> set (attempts c) \<longrightarrow> redirectCount c > maxRedirects_of opts"])
       (simp_all add: request_redirect_attempts handle_redirect_attempts)
  have c: "req c \<and> settled c = None \<longrightarrow>
        redirectCount (handle hst u opts c EvRedirect) = redirectCount c + 1
        \<and> settled (handle hst u opts c EvRedirect)
            = (if redirectCount c + 1 > maxRedirects_of opts
               then Some (Rejected (NewError (redirects_message hst (maxRedirects_of opts))))
               else None)
        \<and> (CallAbort \<in> set (calls (handle hst u opts c EvRedirect)))
            = (redirectCount c + 1 > maxRedirects_of opts \<or> CallAbort \<in> set (calls c))"
    by (auto simp: call_defs Let_def split: option.splits)
  from a b c show ?thesis unfolding redirects_message_def by blast
qed

text \<open>
  \<open>maxRedirects = 3\<close>: three redirects leave the call pending, the fourth aborts the
  request and rejects.
\<close>

theorem redirect_limit_witness:
  "settled (run example_host ''http://a'' (no_options\<lparr>opt_maxRedirects := Some 3\<rparr>)
       (request example_host ''http://a'' (no_options\<lparr>opt_maxRedirects := Some 3\<rparr>) [])
       [EvRedirect, EvRedirect, EvRedirect])
     = None
   \<and> settled (run example_host ''http://a'' (no_options\<lparr>opt_maxRedirects := Some 3\<rparr>)
       (request example_host ''http://a'' (no_options\<lparr>opt_maxRedirects := Some 3\<rparr>) [])
       [EvRedirect, EvRedirect, EvRedirect, EvRedirect])
     = Some (Rejected (NewError ''Too many redirects (>3)''))
   \<and> CallAbort \<in> set (calls (run example_host ''http://a'' (no_options\<lparr>opt_maxRedirects := Some 3\<rparr>)
       (request example_host ''http://a'' (no_options\<lparr>opt_maxRedirects := Some 3\<rparr>) [])
       [EvRedirect, EvRedirect, EvRedirect, EvRedirect]))"
proof -
  have live: "req (request example_host ''http://a'' (no_options\<lparr>opt_maxRedirects := Some 3\<rparr>) [])"
    by (simp add: eval_call)
  have m: "0 \<le> maxRedirects_of (no_options\<lparr>opt_maxRedirects := Some 3\<rparr>)"
    by (simp add: maxRedirects_of_def)
  have p3: "list_all progress [EvRedirect, EvRedirect, EvRedirect]" by simp
  have p4: "list_all progress [EvRedirect, EvRedirect, EvRedirect, EvRedirect]" by simp
  from redirect_limit[where hst = example_host and u = "''http://a''"
      and opts = "no_options\<lparr>opt_maxRedirects := Some 3\<rparr>" and h = "[]"
      and evs = "[EvRedirect, EvRedirect, EvRedirect]"] live m p3
  have a: "settled (run example_host ''http://a'' (no_options\<lparr>opt_maxRedirects := Some 3\<rparr>)
       (request example_host ''http://a'' (no_options\<lparr>opt_maxRedirects := Some 3\<rparr>) [])
       [EvRedirect, EvRedirect, EvRedirect]) = None"
    by (simp add: redirects_def maxRedirects_of_def)
  from redirect_limit[where hst = example_host and u = "''http://a''"
      and opts = "no_options\<lparr>opt_maxRedirects := Some 3\<rparr>" and h = "[]"
      and evs = "[EvRedirect, EvRedirect, EvRedirect, EvRedirect]"] live m p4
  have b: "settled (run example_host ''http://a'' (no_options\<lparr>opt_maxRedirects := Some 3\<rparr>)
       (request example_host ''http://a'' (no_options\<lparr>opt_maxRedirects := Some 3\<rparr>) [])
       [EvRedirect, EvRedirect, EvRedirect, EvRedirect])
     = Some (Rejected (NewError ''Too many redirects (>3)''))
   \<and> CallAbort \<in> set (calls (run example_host ''http://a'' (no_options\<lparr>opt_maxRedirects := Some 3\<rparr>)
       (request example_host ''http://a'' (no_options\<lparr>opt_maxRedirects := Some 3\<rparr>) [])
       [EvRedirect, EvRedirect, EvRedirect, EvRedirect]))"
    by (simp add: redirects_def maxRedirects_of_def eval_strings)
  from a b show ?thesis by simp
qed

subsection \<open>The timer\<close>

lemma handle_timer_pending:
  "(timerPending c \<longrightarrow> settled c = None \<and> timeoutId c) \<Longrightarrow>
   (timerPending (handle hst u opts c ev) \<longrightarrow>
      settled (handle hst u opts c ev) = None \<and> timeoutId (handle hst u opts c ev))"
  by (cases ev) (auto simp: call_defs Let_def split: option.splits sum.splits if_splits)

lemma request_timer_pending:
  "timerPending (request hst u opts h) \<longrightarrow>
     settled (request hst u opts h) = None \<and> timeoutId (request hst u opts h)"
  by (cases rule: request_cases[of hst opts u h])
     (simp_all add: call_defs setup_fields split: option.splits)

lemma run_timer_pending:
  "timerPending (run hst u opts (request hst u opts h) evs) \<longrightarrow>
     settled (run hst u opts (request hst u opts h) evs) = None
     \<and> timeoutId (run hst u opts (request hst u opts h) evs)"
  by (rule run_invariant[where P = "\<lambda>c. timerPending c \<longrightarrow> settled c = None \<and> timeoutId c"])
     (simp_all add: request_timer_pending handle_timer_pending)

lemma terminal_clears_timer:
  "(timerPending c \<longrightarrow> timeoutId c) \<Longrightarrow> terminal opts c ev \<Longrightarrow>
   \<not> timerPending (handle hst u opts c ev)"
  by (cases ev) (auto simp: call_defs Let_def split: option.splits sum.splits if_splits)

lemma handle_no_timer:
  assumes "\<not> timerPending c \<and> \<not> timeoutId c \<and> (\<forall>t. CallSetTimeout t \<notin> set (calls c))
      \<and> CallClearTimeout \<notin> set (calls c)
      \<and> (\<forall>a \<in> set (attempts c). \<not> is_timeout_error a)"
  shows "\<not> timerPending (handle hst u opts c ev) \<and> \<not> timeoutId (handle hst u opts c ev)
      \<and> (\<forall>t. CallSetTimeout t \<notin> set (calls (handle hst u opts c ev)))
      \<and> CallClearTimeout \<notin> set (calls (handle hst u opts c ev))
      \<and> (\<forall>a \<in> set (attempts (handle hst u opts c ev)). \<not> is_timeout_error a)"
  using assms
  by (cases ev)
     (auto simp: call_defs Let_def redirects_message_def split: option.splits sum.splits if_splits)

lemma request_no_timer:
  assumes "timeout_of opts \<le> 0"
  shows "\<not> timerPending (request hst u opts h) \<and> \<not> timeoutId (request hst u opts h)
      \<and> (\<forall>t. CallSetTimeout t \<notin> set (calls (request hst u opts h)))
      \<and> CallClearTimeout \<notin> set (calls (request hst u opts h))
      \<and> (\<forall>a \<in> set (attempts (request hst u opts h)). \<not> is_timeout_error a)"
proof (cases rule: request_cases[of hst opts u h])
  case (setup_failed e)
  then show ?thesis
    by (auto simp: call_defs setup_fields setup_calls split: option.splits proxy_setting.splits)
next
  case (thrown e log)
  have "(\<forall>t. CallSetTimeout t \<notin> set log) \<and> CallClearTimeout \<notin> set log"
    using thrown(3) by (auto simp: list_all_iff)
  then show ?thesis using thrown(2)
    by (auto simp: call_defs setup_fields setup_calls split: option.splits proxy_setting.splits)
next
  case (started log)
  have "(\<forall>t. CallSetTimeout t \<notin> set log) \<and> CallClearTimeout \<notin> set log"
    using started(3) by (auto simp: list_all_iff)
  then show ?thesis using started(2) assms
    by (auto simp: setup_fields setup_calls split: option.splits proxy_setting.splits if_splits)
qed

lemma handle_timer_due:
  assumes "req c \<and> timeoutId c \<and> (settled c = None \<longrightarrow> timerPending c)"
  shows "req (handle hst u opts c ev) \<and> timeoutId (handle hst u opts c ev)
      \<and> (settled (handle hst u opts c ev) = None \<longrightarrow> timerPending (handle hst u opts c ev))"
  using assms
  by (cases ev) (auto simp: call_defs Let_def split: option.splits sum.splits if_splits)

lemma run_timer_due:
  assumes "0 < timeout_of opts" and "req (request hst u opts h)"
  shows "req (run hst u opts (request hst u opts h) evs)
      \<and> timeoutId (run hst u opts (request hst u opts h) evs)
      \<and> (settled (run hst u opts (request hst u opts h) evs) = None
           \<longrightarrow> timerPending (run hst u opts (request hst u opts h) evs))"
proof (rule run_invariant[where P = "\<lambda>c. req c \<and> timeoutId c \<and> (settled c = None \<longrightarrow> timerPending c)"])
  show "req (request hst u opts h) \<and> timeoutId (request hst u opts h)
      \<and> (settled (request hst u opts h) = None \<longrightarrow> timerPending (request hst u opts h))"
    using assms request_live(6,7)[OF assms(2)] by simp
qed (rule handle_timer_due)

lemma terminal_clear_calls:
  "timeoutId c \<Longrightarrow> terminal opts c ev \<Longrightarrow> ev \<noteq> EvTimeout \<Longrightarrow>
   calls (handle hst u opts c ev)
     = calls c @ (if ev = EvRedirect then [CallAbort] else []) @ [CallClearTimeout]"
  by (cases ev) (auto simp: call_defs Let_def split: option.splits sum.splits if_splits)

text \<open>
  Claim C4. With \<open>timeout > 0\<close> a started request has its timer set with the configured
  duration, and the timer stays due for as long as the call has not settled, whatever
  events arrive; when it then expires, the request is aborted and the call rejects with
  the timeout error, which carries that duration. Every other terminal event cancels the
  timer with \<open>clearTimeout\<close> and leaves no timer due, and a call that has settled has no
  timer due. With \<open>timeout \<le> 0\<close> no timer is ever set or cleared and \<open>reject\<close> is never
  called with a timeout error.
\<close>

theorem timeout_behaviour:
  "(0 < timeout_of opts \<and> req (request hst u opts h) \<longrightarrow>
      timerPending (request hst u opts h)
      \<and> CallSetTimeout (timeout_of opts) \<in> set (calls (request hst u opts h)))
   \<and> (timerPending (run hst u opts (request hst u opts h) evs) \<longrightarrow>
      settled (handle hst u opts (run hst u opts (request hst u opts h) evs) EvTimeout)
        = Some (Rejected (NewError (''Request timeout after '' @ number_string hst (timeout_of opts) @ ''ms'')))
      \<and> calls (handle hst u opts (run hst u opts (request hst u opts h) evs) EvTimeout)
        = calls (run hst u opts (request hst u opts h) evs) @ [CallAbort])
   \<and> (terminal opts (run hst u opts (request hst u opts h) evs) ev \<longrightarrow>
      \<not> timerPending (handle hst u opts (run hst u opts (request hst u opts h) evs) ev))
   \<and> (timeout_of opts \<le> 0 \<longrightarrow>
      \<not> timerPending (run hst u opts (request hst u opts h) evs)
      \<and> (\<forall>t. CallSetTimeout t \<notin> set (calls (run hst u opts (request hst u opts h) evs)))
      \<and> CallClearTimeout \<notin> set (calls (run hst u opts (request hst u opts h) evs))
      \<and> (\<forall>a \<in> set (attempts (run hst u opts (request hst u opts h) evs)). \<not> is_timeout_error a))
   \<and> (settled (run hst u opts (request hst u opts h) evs) \<noteq> None \<longrightarrow>
      \<not> timerPending (run hst u opts (request hst u opts h) evs))
   \<and> (0 < timeout_of opts \<and> req (request hst u opts h)
        \<and> settled (run hst u opts (request hst u opts h) evs) = None \<longrightarrow>
      timerPending (run hst u opts (request hst u opts h) evs)
      \<and> settled (run hst u opts (request hst u opts h) (evs @ [EvTimeout]))
        = Some (Rejected (NewError (''Request timeout after '' @ number_string hst (timeout_of opts) @ ''ms'')))
      \<and> calls (run hst u opts (request hst u opts h) (evs @ [EvTimeout]))
        = calls (run hst u opts (request hst u opts h) evs) @ [CallAbort])
   \<and> (0 < timeout_of opts \<and> req (request hst u opts h)
        \<and> terminal opts (run hst u opts (request hst u opts h) evs) ev \<and> ev \<noteq> EvTimeout \<longrightarrow>
      calls (handle hst u opts (run hst u opts (request hst u opts h) evs) ev)
        = calls (run hst u opts (request hst u opts h) evs)
            @ (if ev = EvRedirect then [CallAbort] else []) @ [CallClearTimeout])
   \<and> is_timeout_error
        (Rejected (NewError (''Request timeout after '' @ number_string hst (timeout_of opts) @ ''ms'')) :: 'j outcome)"
proof -
  let ?start = "request hst u opts h"
  let ?now = "run hst u opts ?start evs"
  have a: "0 < timeout_of opts \<and> req ?start \<longrightarrow>
      timerPending ?start \<and> CallSetTimeout (timeout_of opts) \<in> set (calls ?start)"
  proof (cases rule: request_cases[of hst opts u h])
    case (started log)
    then show ?thesis by (auto simp: setup_fields)
  qed (simp_all add: call_defs setup_fields split: option.splits)
  note k = run_timer_pending[of hst u opts h evs]
  have b: "timerPending ?now \<longrightarrow>
      settled (handle hst u opts ?now EvTimeout)
        = Some (Rejected (NewError (timeout_message hst (timeout_of opts))))
      \<and> calls (handle hst u opts ?now EvTimeout) = calls ?now @ [CallAbort]"
    using k by (auto simp: call_defs split: option.splits)
  have c: "terminal opts ?now ev \<longrightarrow> \<not> timerPending (handle hst u opts ?now ev)"
    using k terminal_clears_timer[of ?now opts ev hst u] by blast
  have d: "timeout_of opts \<le> 0 \<longrightarrow>
      \<not> timerPending ?now \<and> (\<forall>t. CallSetTimeout t \<notin> set (calls ?now))
      \<and> CallClearTimeout \<notin> set (calls ?now)
      \<and> (\<forall>a \<in> set (attempts ?now). \<not> is_timeout_error a)"
  proof
    assume t: "timeout_of opts \<le> 0"
    have "\<not> timerPending ?now \<and> \<not> timeoutId ?now \<and> (\<forall>t. CallSetTimeout t \<notin> set (calls ?now))
      \<and> CallClearTimeout \<notin> set (calls ?now)
      \<and> (\<forall>a \<in> set (attempts ?now). \<not> is_timeout_error a)"
      by (rule run_invariant[where P = "\<lambda>c. \<not> timerPending c \<and> \<not> timeoutId c
            \<and> (\<forall>t. CallSetTimeout t \<notin> set (calls c))
            \<and> CallClearTimeout \<notin> set (calls c)
            \<and> (\<forall>a \<in> set (attempts c). \<not> is_timeout_error a)"],
          rule request_no_timer[OF t], erule handle_no_timer)
    then show "\<not> timerPending ?now \<and> (\<forall>t. CallSetTimeout t \<notin> set (calls ?now))
      \<and> CallClearTimeout \<notin> set (calls ?now)
      \<and> (\<forall>a \<in> set (attempts ?now). \<not> is_timeout_error a)" by blast
  qed
  have e: "is_timeout_error (Rejected (NewError (timeout_message hst (timeout_of opts))) :: 'j outcome)"
    by (simp add: timeout_message_def)
  have f: "settled ?now \<noteq> None \<longrightarrow> \<not> timerPending ?now"
    using k by auto
  have g: "0 < timeout_of opts \<and> req ?start \<and> settled ?now = None \<longrightarrow>
      timerPending ?now
      \<and> settled (run hst u opts ?start (evs @ [EvTimeout]))
        = Some (Rejected (NewError (timeout_message hst (timeout_of opts))))
      \<and> calls (run hst u opts ?start (evs @ [EvTimeout])) = calls ?now @ [CallAbort]"
  proof (intro impI, elim conjE)
    assume t: "0 < timeout_of opts" and live: "req ?start" and s: "settled ?now = None"
    from run_timer_due[OF t live, of evs] s have p: "timerPending ?now" by blast
    with b show "timerPending ?now
      \<and> settled (run hst u opts ?start (evs @ [EvTimeout]))
        = Some (Rejected (NewError (timeout_message hst (timeout_of opts))))
      \<and> calls (run hst u opts ?start (evs @ [EvTimeout])) = calls ?now @ [CallAbort]"
      by (simp add: run_snoc)
  qed
  have i: "0 < timeout_of opts \<and> req ?start \<and> terminal opts ?now ev \<and> ev \<noteq> EvTimeout \<longrightarrow>
      calls (handle hst u opts ?now ev)
        = calls ?now @ (if ev = EvRedirect then [CallAbort] else []) @ [CallClearTimeout]"
  proof (intro impI, elim conjE)
    assume t: "0 < timeout_of opts" and live: "req ?start"
      and tm: "terminal opts ?now ev" and ne: "ev \<noteq> EvTimeout"
    from run_timer_due[OF t live, of evs] have "timeoutId ?now" by blast
    from terminal_clear_calls[OF this tm ne]
    show "calls (handle hst u opts ?now ev)
        = calls ?now @ (if ev = EvRedirect then [CallAbort] else []) @ [CallClearTimeout]" .
  qed
  from a b c d e f g i show ?thesis unfolding timeout_message_def by blast
qed

text \<open>
  \<open>timeout = 100\<close>: the timer expires while the body is stalled after a first chunk; the
  end of the body clears the timer. \<open>timeout = 0\<close>: no timer is due.
\<close>

theorem timeout_behaviour_witness:
  "settled (run example_host ''http://a'' (no_options\<lparr>opt_timeout := Some 100\<rparr>)
       (request example_host ''http://a'' (no_options\<lparr>opt_timeout := Some 100\<rparr>) [])
       ([EvResponse \<lparr>statusCode = 200, statusMessage = ''OK'', rawHeaders = Some []\<rparr>,
         EvData [104]] @ [EvTimeout]))
     = Some (Rejected (NewError ''Request timeout after 100ms''))
   \<and> calls (handle example_host ''http://a'' (no_options\<lparr>opt_timeout := Some 100\<rparr>)
       (run example_host ''http://a'' (no_options\<lparr>opt_timeout := Some 100\<rparr>)
          (request example_host ''http://a'' (no_options\<lparr>opt_timeout := Some 100\<rparr>) [])
          [EvResponse \<lparr>statusCode = 200, statusMessage = ''OK'', rawHeaders = Some []\<rparr>])
       EvEnd)
     = calls (run example_host ''http://a'' (no_options\<lparr>opt_timeout := Some 100\<rparr>)
          (request example_host ''http://a'' (no_options\<lparr>opt_timeout := Some 100\<rparr>) [])
          [EvResponse \<lparr>statusCode = 200, statusMessage = ''OK'', rawHeaders = Some []\<rparr>])
        @ [CallClearTimeout]
   \<and> \<not> timerPending (run example_host ''http://a'' (no_options\<lparr>opt_timeout := Some 0\<rparr>)
          (request example_host ''http://a'' (no_options\<lparr>opt_timeout := Some 0\<rparr>) [])
          [EvTimeout])"
proof -
  let ?o = "no_options\<lparr>opt_timeout := Some 100\<rparr>"
  let ?m = "\<lparr>statusCode = 200, statusMessage = ''OK'', rawHeaders = Some []\<rparr>"
  have t: "0 < timeout_of ?o" by (simp add: timeout_of_def)
  have live: "req (request example_host ''http://a'' ?o [])"
    by (simp add: eval_call)
  have s: "settled (run example_host ''http://a'' ?o (request example_host ''http://a'' ?o [])
             [EvResponse ?m, EvData [104]]) = None"
    by (simp add: eval_call)
  have tm: "terminal ?o (run example_host ''http://a'' ?o (request example_host ''http://a'' ?o [])
             [EvResponse ?m]) EvEnd"
    by (simp add: eval_call)
  have z: "timeout_of (no_options\<lparr>opt_timeout := Some 0\<rparr>) \<le> 0"
    by (simp add: timeout_of_def)
  from timeout_behaviour[where hst = example_host and u = "''http://a''" and opts = ?o
      and h = "[]" and evs = "[EvResponse ?m, EvData [104]]"] t live s
  have a: "settled (run example_host ''http://a'' ?o (request example_host ''http://a'' ?o [])
       ([EvResponse ?m, EvData [104]] @ [EvTimeout]))
     = Some (Rejected (NewError ''Request timeout after 100ms''))"
    by (simp add: timeout_of_def eval_strings)
  from timeout_behaviour[where hst = example_host and u = "''http://a''" and opts = ?o
      and h = "[]" and evs = "[EvResponse ?m]" and ev = EvEnd] t live tm
  have b: "calls (handle example_host ''http://a'' ?o
       (run example_host ''http://a'' ?o (request example_host ''http://a'' ?o []) [EvResponse ?m])
       EvEnd)
     = calls (run example_host ''http://a'' ?o (request example_host ''http://a'' ?o [])
          [EvResponse ?m]) @ [CallClearTimeout]"
    by simp
  from timeout_behaviour[where hst = example_host and u = "''http://a''"
      and opts = "no_options\<lparr>opt_timeout := Some 0\<rparr>" and h = "[]" and evs = "[EvTimeout]"] z
  have c: "\<not> timerPending (run example_host ''http://a'' (no_options\<lparr>opt_timeout := Some 0\<rparr>)
          (request example_host ''http://a'' (no_options\<lparr>opt_timeout := Some 0\<rparr>) [])
          [EvTimeout])"
    by blast
  from a b c show ?thesis by simp
qed

subsection \<open>The network context\<close>

text \<open>
  Claim C5. With \<open>proxy\<close> omitted or \<open>false\<close>, \<open>request\<close> creates no context and
  configures no proxy, and its first call on the host is \<open>net.request\<close> on the default
  session. With a proxy descriptor it first obtains a session from a partition named for
  this call with the cache off and sets its proxy rules to \<open>protocol://host:port\<close>, and
  the request, once started, is issued on that session.
\<close>

theorem proxy_context:
  "(opt_proxy opts = None \<or> opt_proxy opts = Some ProxyFalse \<longrightarrow>
      tempPartition (request hst u opts h) = None
      \<and> (\<forall>name cache. CallFromPartition name cache \<notin> set (calls (request hst u opts h)))
      \<and> (\<forall>s rules. CallSetProxy s rules \<notin> set (calls (request hst u opts h)))
      \<and> hd (calls (request hst u opts h)) = CallNetRequest (net_options u opts DefaultSession)
      \<and> (\<forall>nro. CallNetRequest nro \<in> set (calls (request hst u opts h))
            \<longrightarrow> nr_session nro = DefaultSession))
   \<and> (opt_proxy opts = Some (ProxyDescriptor p) \<longrightarrow>
      take 2 (calls (request hst u opts h))
        = [CallFromPartition (partition_name hst) False,
           CallSetProxy (FromPartition (partition_name hst) False)
             (protocol_name (protocol p) @ ''://'' @ host p @ '':'' @ number_string hst (port p))]
      \<and> (\<forall>nro. CallNetRequest nro \<in> set (calls (request hst u opts h))
            \<longrightarrow> nr_session nro = FromPartition (partition_name hst) False)
      \<and> (req (request hst u opts h) \<longrightarrow>
            calls (request hst u opts h) ! 2
              = CallNetRequest (net_options u opts (FromPartition (partition_name hst) False))))"
proof -
  have a: "opt_proxy opts = None \<or> opt_proxy opts = Some ProxyFalse \<longrightarrow>
      tempPartition (request hst u opts h) = None
      \<and> (\<forall>name cache. CallFromPartition name cache \<notin> set (calls (request hst u opts h)))
      \<and> (\<forall>s rules. CallSetProxy s rules \<notin> set (calls (request hst u opts h)))
      \<and> hd (calls (request hst u opts h)) = CallNetRequest (net_options u opts DefaultSession)
      \<and> (\<forall>nro. CallNetRequest nro \<in> set (calls (request hst u opts h))
            \<longrightarrow> nr_session nro = DefaultSession)"
  proof
    assume np: "opt_proxy opts = None \<or> opt_proxy opts = Some ProxyFalse"
    then have s: "calls (snd (setupProxy hst opts init_call)) = []"
      "sessionToUse (snd (setupProxy hst opts init_call)) = DefaultSession"
      "tempPartition (snd (setupProxy hst opts init_call)) = None"
      "fst (setupProxy hst opts init_call) = None"
      by (auto simp: setup_calls setup_session setup_result)
    show "tempPartition (request hst u opts h) = None
      \<and> (\<forall>name cache. CallFromPartition name cache \<notin> set (calls (request hst u opts h)))
      \<and> (\<forall>s rules. CallSetProxy s rules \<notin> set (calls (request hst u opts h)))
      \<and> hd (calls (request hst u opts h)) = CallNetRequest (net_options u opts DefaultSession)
      \<and> (\<forall>nro. CallNetRequest nro \<in> set (calls (request hst u opts h))
            \<longrightarrow> nr_session nro = DefaultSession)"
    proof (cases rule: request_cases[of hst opts u h])
      case (setup_failed e)
      then show ?thesis using s by simp
    next
      case (thrown e log)
      have "\<forall>x \<in> set log. is_set_header x" using thrown(3) by (simp add: list_all_iff)
      then have "(\<forall>name cache. CallFromPartition name cache \<notin> set log)
          \<and> (\<forall>s rules. CallSetProxy s rules \<notin> set log)
          \<and> (\<forall>nro. CallNetRequest nro \<notin> set log)" by auto
      then show ?thesis using thrown(2) s
        by (auto simp: call_defs net_options_def)
    next
      case (started log)
      have "\<forall>x \<in> set log. is_set_header x" using started(3) by (simp add: list_all_iff)
      then have "(\<forall>name cache. CallFromPartition name cache \<notin> set log)
          \<and> (\<forall>s rules. CallSetProxy s rules \<notin> set log)
          \<and> (\<forall>nro. CallNetRequest nro \<notin> set log)" by auto
      then show ?thesis using started(2) s
        by (auto simp: net_options_def split: option.splits if_splits)
    qed
  qed
  have b: "opt_proxy opts = Some (ProxyDescriptor p) \<longrightarrow>
      take 2 (calls (request hst u opts h))
        = [CallFromPartition (partition_name hst) False,
           CallSetProxy (FromPartition (partition_name hst) False) (proxy_rules hst p)]
      \<and> (\<forall>nro. CallNetRequest nro \<in> set (calls (request hst u opts h))
            \<longrightarrow> nr_session nro = FromPartition (partition_name hst) False)
      \<and> (req (request hst u opts h) \<longrightarrow>
            calls (request hst u opts h) ! 2
              = CallNetRequest (net_options u opts (FromPartition (partition_name hst) False)))"
  proof
    assume pd: "opt_proxy opts = Some (ProxyDescriptor p)"
    then have s: "calls (snd (setupProxy hst opts init_call))
        = [CallFromPartition (partition_name hst) False,
           CallSetProxy (FromPartition (partition_name hst) False) (proxy_rules hst p)]"
      "sessionToUse (snd (setupProxy hst opts init_call)) = FromPartition (partition_name hst) False"
      by (auto simp: setup_calls setup_session)
    show "take 2 (calls (request hst u opts h))
        = [CallFromPartition (partition_name hst) False,
           CallSetProxy (FromPartition (partition_name hst) False) (proxy_rules hst p)]
      \<and> (\<forall>nro. CallNetRequest nro \<in> set (calls (request hst u opts h))
            \<longrightarrow> nr_session nro = FromPartition (partition_name hst) False)
      \<and> (req (request hst u opts h) \<longrightarrow>
            calls (request hst u opts h) ! 2
              = CallNetRequest (net_options u opts (FromPartition (partition_name hst) False)))"
    proof (cases rule: request_cases[of hst opts u h])
      case (setup_failed e)
      then show ?thesis using s
        by (auto simp: call_defs setup_fields split: option.splits)
    next
      case (thrown e log)
      have "\<forall>x \<in> set log. is_set_header x" using thrown(3) by (simp add: list_all_iff)
      then have "\<forall>nro. CallNetRequest nro \<notin> set log" by auto
      then show ?thesis using thrown(2) s
        by (auto simp: call_defs setup_fields net_options_def split: option.splits)
    next
      case (started log)
      have "\<forall>x \<in> set log. is_set_header x" using started(3) by (simp add: list_all_iff)
      then have "\<forall>nro. CallNetRequest nro \<notin> set log" by auto
      then show ?thesis using started(2) s
        by (auto simp: net_options_def split: option.splits if_splits)
    qed
  qed
  from a b show ?thesis unfolding proxy_rules_def by blast
qed

text \<open>A SOCKS5 proxy on port 7890, and \<open>proxy: false\<close>.\<close>

theorem proxy_context_witness:
  "take 2 (calls (request example_host ''http://a''
       (no_options\<lparr>opt_proxy := Some (ProxyDescriptor
          \<lparr>protocol = Socks5, host = ''127.0.0.1'', port = 7890\<rparr>)\<rparr>) []))
     = [CallFromPartition ''temp-request-1700000000000-0.25'' False,
        CallSetProxy (FromPartition ''temp-request-1700000000000-0.25'' False)
          ''socks5://127.0.0.1:7890'']
   \<and> calls (request example_host ''http://a''
       (no_options\<lparr>opt_proxy := Some (ProxyDescriptor
          \<lparr>protocol = Socks5, host = ''127.0.0.1'', port = 7890\<rparr>)\<rparr>) []) ! 2
     = CallNetRequest \<lparr>nr_method = GET, nr_url = ''http://a'',
         nr_session = FromPartition ''temp-request-1700000000000-0.25'' False,
         nr_redirect = Follow, nr_useSessionCookies = True\<rparr>
   \<and> hd (calls (request example_host ''http://a'' (no_options\<lparr>opt_proxy := Some ProxyFalse\<rparr>) []))
     = CallNetRequest \<lparr>nr_method = GET, nr_url = ''http://a'', nr_session = DefaultSession,
         nr_redirect = Follow, nr_useSessionCookies = True\<rparr>"
proof -
  have live: "req (request example_host ''http://a''
       (no_options\<lparr>opt_proxy := Some (ProxyDescriptor
          \<lparr>protocol = Socks5, host = ''127.0.0.1'', port = 7890\<rparr>)\<rparr>) [])"
    by (simp add: eval_call)
  have n: "partition_name example_host = ''temp-request-1700000000000-0.25''"
    by (simp add: partition_name_def example_host_def eval_strings)
  from proxy_context[where hst = example_host and u = "''http://a''" and h = "[]"
      and opts = "no_options\<lparr>opt_proxy := Some (ProxyDescriptor
          \<lparr>protocol = Socks5, host = ''127.0.0.1'', port = 7890\<rparr>)\<rparr>"
      and p = "\<lparr>protocol = Socks5, host = ''127.0.0.1'', port = 7890\<rparr>"] live
  have a: "take 2 (calls (request example_host ''http://a''
       (no_options\<lparr>opt_proxy := Some (ProxyDescriptor
          \<lparr>protocol = Socks5, host = ''127.0.0.1'', port = 7890\<rparr>)\<rparr>) []))
     = [CallFromPartition ''temp-request-1700000000000-0.25'' False,
        CallSetProxy (FromPartition ''temp-request-1700000000000-0.25'' False)
          ''socks5://127.0.0.1:7890'']
   \<and> calls (request example_host ''http://a''
       (no_options\<lparr>opt_proxy := Some (ProxyDescriptor
          \<lparr>protocol = Socks5, host = ''127.0.0.1'', port = 7890\<rparr>)\<rparr>) []) ! 2
     = CallNetRequest \<lparr>nr_method = GET, nr_url = ''http://a'',
         nr_session = FromPartition ''temp-request-1700000000000-0.25'' False,
         nr_redirect = Follow, nr_useSessionCookies = True\<rparr>"
    by (simp add: n net_options_def method_of_def followRedirect_of_def no_options_def eval_strings)
  from proxy_context[where hst = example_host and u = "''http://a''" and h = "[]"
      and opts = "no_options\<lparr>opt_proxy := Some ProxyFalse\<rparr>"]
  have b: "hd (calls (request example_host ''http://a'' (no_options\<lparr>opt_proxy := Some ProxyFalse\<rparr>) []))
     = CallNetRequest \<lparr>nr_method = GET, nr_url = ''http://a'', nr_session = DefaultSession,
         nr_redirect = Follow, nr_useSessionCookies = True\<rparr>"
    by (simp add: net_options_def method_of_def followRedirect_of_def no_options_def)
  from a b show ?thesis by simp
qed

subsection \<open>The body and the resolved value\<close>

lemma run_data:
  "res c = Some captured \<Longrightarrow>
   run hst u opts c (map EvData bs) = c\<lparr>chunks := chunks c @ bs\<rparr>"
proof (induction bs arbitrary: c)
  case Nil
  then show ?case by (simp add: run_Nil)
next
  case (Cons b bs)
  have "res (c\<lparr>chunks := chunks c @ [b]\<rparr>) = Some captured" using Cons.prems by simp
  from Cons.IH[OF this] Cons.prems show ?case by (simp add: run_Cons)
qed

lemma end_outcome:
  assumes "res c = Some (code, message, hs)" and "settled c = None"
  shows "settled (handle hst u opts c EvEnd)
     = Some (case decode_body hst (responseType_of opts) (concat (chunks c)) of
               Inr d \<Rightarrow> Resolved \<lparr>data = d, status = code, statusText = message,
                                   headers = hs, url = u\<rparr>
             | Inl e \<Rightarrow> Rejected (NewError (''Failed to parse response: '' @ e)))"
  using assms by (auto simp: call_defs Let_def split: option.splits sum.splits)

lemma exchange_outcome:
  assumes "req (request hst u opts h)"
  shows "settled (run hst u opts (request hst u opts h) (EvResponse m # map EvData bs @ [EvEnd]))
     = Some (case decode_body hst (responseType_of opts) (concat bs) of
               Inr d \<Rightarrow> Resolved \<lparr>data = d, status = statusCode m, statusText = statusMessage m,
                                   headers = extractHeaders hst (rawHeaders m), url = u\<rparr>
             | Inl e \<Rightarrow> Rejected (NewError (''Failed to parse response: '' @ e)))"
proof -
  note l = request_live[OF assms]
  let ?start = "request hst u opts h"
  let ?got = "?start\<lparr>res := Some (statusCode m, statusMessage m, extractHeaders hst (rawHeaders m))\<rparr>"
  have 1: "handle hst u opts ?start (EvResponse m) = ?got" using assms by simp
  have 2: "run hst u opts ?got (map EvData bs) = ?got\<lparr>chunks := chunks ?got @ bs\<rparr>"
    by (rule run_data) simp
  have 3: "run hst u opts ?start (EvResponse m # map EvData bs @ [EvEnd])
      = handle hst u opts (?got\<lparr>chunks := bs\<rparr>) EvEnd"
    using 1 2 l(3) by (simp add: run_Cons run_snoc)
  show ?thesis unfolding 3
    using end_outcome[of "?got\<lparr>chunks := bs\<rparr>" "statusCode m" "statusMessage m"
        "extractHeaders hst (rawHeaders m)" hst u opts] l(1)
    by simp
qed

lemma handle_resolved_url:
  "(\<forall>r. Resolved r \<in> set (attempts c) \<longrightarrow> url r = u) \<Longrightarrow>
   (\<forall>r. Resolved r \<in> set (attempts (handle hst u opts c ev)) \<longrightarrow> url r = u)"
  by (cases ev) (auto simp: call_defs Let_def split: option.splits sum.splits if_splits)

lemma request_resolved_url:
  "\<forall>r. Resolved r \<in> set (attempts (request hst u opts h)) \<longrightarrow> url r = u"
  by (cases rule: request_cases[of hst opts u h])
     (simp_all add: call_defs setup_fields split: option.splits)

lemma settled_in_attempts:
  "settled c = (case attempts c of [] \<Rightarrow> None | a # as \<Rightarrow> Some a) \<Longrightarrow> settled c = Some out
   \<Longrightarrow> out \<in> set (attempts c)"
  by (cases "attempts c") simp_all

text \<open>
  Claim C7. With \<open>responseType\<close> \<open>json\<close>, at the end of the body of a call that has not
  settled: if the decoded body parses, the call resolves with the parsed value as data;
  if the parser throws, the call rejects with the error \<open>Failed to parse response\<close>
  followed by the cause. The second part states the same for a whole exchange: the
  response, the chunks of the body, the end.
\<close>

theorem json_response:
  "responseType_of opts = Json \<longrightarrow>
     (res c = Some (code, message, hs) \<and> settled c = None \<longrightarrow>
        settled (handle hst u opts c EvEnd)
          = (case jsonParse hst (utf8 hst (concat (chunks c))) of
               Inr v \<Rightarrow> Some (Resolved \<lparr>data = DataJson v, status = code, statusText = message,
                                          headers = hs, url = u\<rparr>)
             | Inl e \<Rightarrow> Some (Rejected (NewError (''Failed to parse response: '' @ e)))))
     \<and> (req (request hst u opts h) \<longrightarrow>
        settled (run hst u opts (request hst u opts h) (EvResponse m # map EvData bs @ [EvEnd]))
          = (case jsonParse hst (utf8 hst (concat bs)) of
               Inr v \<Rightarrow> Some (Resolved \<lparr>data = DataJson v, status = statusCode m,
                                          statusText = statusMessage m,
                                          headers = extractHeaders hst (rawHeaders m), url = u\<rparr>)
             | Inl e \<Rightarrow> Some (Rejected (NewError (''Failed to parse response: '' @ e)))))"
proof
  assume j: "responseType_of opts = Json"
  have a: "res c = Some (code, message, hs) \<and> settled c = None \<longrightarrow>
        settled (handle hst u opts c EvEnd)
          = (case jsonParse hst (utf8 hst (concat (chunks c))) of
               Inr v \<Rightarrow> Some (Resolved \<lparr>data = DataJson v, status = code, statusText = message,
                                          headers = hs, url = u\<rparr>)
             | Inl e \<Rightarrow> Some (Rejected (NewError (''Failed to parse response: '' @ e))))"
    using j end_outcome[of c code message hs hst u opts] by (auto split: sum.splits)
  have b: "req (request hst u opts h) \<longrightarrow>
        settled (run hst u opts (request hst u opts h) (EvResponse m # map EvData bs @ [EvEnd]))
          = (case jsonParse hst (utf8 hst (concat bs)) of
               Inr v \<Rightarrow> Some (Resolved \<lparr>data = DataJson v, status = statusCode m,
                                          statusText = statusMessage m,
                                          headers = extractHeaders hst (rawHeaders m), url = u\<rparr>)
             | Inl e \<Rightarrow> Some (Rejected (NewError (''Failed to parse response: '' @ e))))"
    using j exchange_outcome[of hst u opts h m bs] by (auto split: sum.splits)
  from a b show "(res c = Some (code, message, hs) \<and> settled c = None \<longrightarrow>
        settled (handle hst u opts c EvEnd)
          = (case jsonParse hst (utf8 hst (concat (chunks c))) of
               Inr v \<Rightarrow> Some (Resolved \<lparr>data = DataJson v, status = code, statusText = message,
                                          headers = hs, url = u\<rparr>)
             | Inl e \<Rightarrow> Some (Rejected (NewError (''Failed to parse response: '' @ e)))))
     \<and> (req (request hst u opts h) \<longrightarrow>
        settled (run hst u opts (request hst u opts h) (EvResponse m # map EvData bs @ [EvEnd]))
          = (case jsonParse hst (utf8 hst (concat bs)) of
               Inr v \<Rightarrow> Some (Resolved \<lparr>data = DataJson v, status = statusCode m,
                                          statusText = statusMessage m,
                                          headers = extractHeaders hst (rawHeaders m), url = u\<rparr>)
             | Inl e \<Rightarrow> Some (Rejected (NewError (''Failed to parse response: '' @ e)))))"
    by blast
qed

text \<open>The spec's two examples: the body \<open>{"a":1}\<close> in two chunks, and the body \<open>{a:\<close>.\<close>

theorem json_response_witness:
  "settled (run example_host ''http://a'' (no_options\<lparr>opt_responseType := Some Json\<rparr>)
       (request example_host ''http://a'' (no_options\<lparr>opt_responseType := Some Json\<rparr>) [])
       (EvResponse \<lparr>statusCode = 200, statusMessage = ''OK'', rawHeaders = Some []\<rparr>
          # map EvData [[123, 34, 97], [34, 58, 49, 125]] @ [EvEnd]))
     = Some (Resolved \<lparr>data = DataJson [(''a'', 1)], status = 200, statusText = ''OK'',
                        headers = [], url = ''http://a''\<rparr>)
   \<and> settled (run example_host ''http://a'' (no_options\<lparr>opt_responseType := Some Json\<rparr>)
       (request example_host ''http://a'' (no_options\<lparr>opt_responseType := Some Json\<rparr>) [])
       (EvResponse \<lparr>statusCode = 200, statusMessage = ''OK'', rawHeaders = Some []\<rparr>
          # map EvData [[123, 97, 58]] @ [EvEnd]))
     = Some (Rejected (NewError ''Failed to parse response: SyntaxError: Unexpected token''))"
proof -
  have live: "req (request example_host ''http://a'' (no_options\<lparr>opt_responseType := Some Json\<rparr>) [])"
    by (simp add: eval_call)
  have j: "responseType_of (no_options\<lparr>opt_responseType := Some Json\<rparr>) = Json"
    by (simp add: responseType_of_def)
  have good: "jsonParse example_host (utf8 example_host (concat [[123, 34, 97], [34, 58, 49, 125]]))
      = Inr [(''a'', 1)]"
    by (simp add: example_host_def ascii_def parse_example_def char_of_def bit_Suc_0_iff)
  have bad: "jsonParse example_host (utf8 example_host (concat [[123, 97, 58]]))
      = Inl ''SyntaxError: Unexpected token''"
    by (simp add: example_host_def ascii_def parse_example_def char_of_def bit_Suc_0_iff)
  have e: "extractHeaders example_host (Some []) = []"
    by (simp add: extractHeaders_def extract_loop.simps)
  from json_response[where hst = example_host and u = "''http://a''" and h = "[]"
      and opts = "no_options\<lparr>opt_responseType := Some Json\<rparr>"
      and m = "\<lparr>statusCode = 200, statusMessage = ''OK'', rawHeaders = Some []\<rparr>"
      and bs = "[[123, 34, 97], [34, 58, 49, 125]]"] live j good e
  have a: "settled (run example_host ''http://a'' (no_options\<lparr>opt_responseType := Some Json\<rparr>)
       (request example_host ''http://a'' (no_options\<lparr>opt_responseType := Some Json\<rparr>) [])
       (EvResponse \<lparr>statusCode = 200, statusMessage = ''OK'', rawHeaders = Some []\<rparr>
          # map EvData [[123, 34, 97], [34, 58, 49, 125]] @ [EvEnd]))
     = Some (Resolved \<lparr>data = DataJson [(''a'', 1)], status = 200, statusText = ''OK'',
                        headers = [], url = ''http://a''\<rparr>)"
    by simp
  from json_response[where hst = example_host and u = "''http://a''" and h = "[]"
      and opts = "no_options\<lparr>opt_responseType := Some Json\<rparr>"
      and m = "\<lparr>statusCode = 200, statusMessage = ''OK'', rawHeaders = Some []\<rparr>"
      and bs = "[[123, 97, 58]]"] live j bad e
  have b: "settled (run example_host ''http://a'' (no_options\<lparr>opt_responseType := Some Json\<rparr>)
       (request example_host ''http://a'' (no_options\<lparr>opt_responseType := Some Json\<rparr>) [])
       (EvResponse \<lparr>statusCode = 200, statusMessage = ''OK'', rawHeaders = Some []\<rparr>
          # map EvData [[123, 97, 58]] @ [EvEnd]))
     = Some (Rejected (NewError ''Failed to parse response: SyntaxError: Unexpected token''))"
    by simp
  from a b show ?thesis by simp
qed

text \<open>
  Claim C8. A whole exchange on a started request resolves with data, status, status
  text, headers and URL: for \<open>text\<close>, which is the default, the data is the decoding of
  the concatenated chunks; for \<open>arraybuffer\<close> it is the concatenated chunks themselves,
  as many bytes as were received. The same holds at the end of the body in any state that
  has not settled. In every run, a resolved value carries the URL given to \<open>request\<close>.
\<close>

theorem resolved_value:
  "(req (request hst u opts h) \<and> responseType_of opts = Text \<longrightarrow>
      settled (run hst u opts (request hst u opts h) (EvResponse m # map EvData bs @ [EvEnd]))
        = Some (Resolved \<lparr>data = DataText (utf8 hst (concat bs)), status = statusCode m,
                           statusText = statusMessage m,
                           headers = extractHeaders hst (rawHeaders m), url = u\<rparr>))
   \<and> (req (request hst u opts h) \<and> responseType_of opts = Arraybuffer \<longrightarrow>
      settled (run hst u opts (request hst u opts h) (EvResponse m # map EvData bs @ [EvEnd]))
        = Some (Resolved \<lparr>data = DataBuffer (concat bs), status = statusCode m,
                           statusText = statusMessage m,
                           headers = extractHeaders hst (rawHeaders m), url = u\<rparr>)
      \<and> length (concat bs) = sum_list (map length bs))
   \<and> (opt_responseType opts = None \<longrightarrow> responseType_of opts = Text)
   \<and> (res c = Some (code, message, hs) \<and> settled c = None \<and> responseType_of opts \<noteq> Json \<longrightarrow>
      settled (handle hst u opts c EvEnd)
        = Some (Resolved \<lparr>data = (if responseType_of opts = Arraybuffer
                                   then DataBuffer (concat (chunks c))
                                   else DataText (utf8 hst (concat (chunks c)))),
                           status = code, statusText = message, headers = hs, url = u\<rparr>))
   \<and> (settled (run hst u opts (request hst u opts h) evs) = Some (Resolved r) \<longrightarrow> url r = u)"
proof -
  let ?start = "request hst u opts h"
  have a: "req ?start \<and> responseType_of opts = Text \<longrightarrow>
      settled (run hst u opts ?start (EvResponse m # map EvData bs @ [EvEnd]))
        = Some (Resolved \<lparr>data = DataText (utf8 hst (concat bs)), status = statusCode m,
                           statusText = statusMessage m,
                           headers = extractHeaders hst (rawHeaders m), url = u\<rparr>)"
  proof (intro impI, elim conjE)
    assume live: "req ?start" and t: "responseType_of opts = Text"
    show "settled (run hst u opts ?start (EvResponse m # map EvData bs @ [EvEnd]))
        = Some (Resolved \<lparr>data = DataText (utf8 hst (concat bs)), status = statusCode m,
                           statusText = statusMessage m,
                           headers = extractHeaders hst (rawHeaders m), url = u\<rparr>)"
      unfolding exchange_outcome[OF live] t by simp
  qed
  have b: "req ?start \<and> responseType_of opts = Arraybuffer \<longrightarrow>
      settled (run hst u opts ?start (EvResponse m # map EvData bs @ [EvEnd]))
        = Some (Resolved \<lparr>data = DataBuffer (concat bs), status = statusCode m,
                           statusText = statusMessage m,
                           headers = extractHeaders hst (rawHeaders m), url = u\<rparr>)
      \<and> length (concat bs) = sum_list (map length bs)"
  proof (intro impI, elim conjE)
    assume live: "req ?start" and t: "responseType_of opts = Arraybuffer"
    have "settled (run hst u opts ?start (EvResponse m # map EvData bs @ [EvEnd]))
        = Some (Resolved \<lparr>data = DataBuffer (concat bs), status = statusCode m,
                           statusText = statusMessage m,
                           headers = extractHeaders hst (rawHeaders m), url = u\<rparr>)"
      unfolding exchange_outcome[OF live] t by simp
    then show "settled (run hst u opts ?start (EvResponse m # map EvData bs @ [EvEnd]))
        = Some (Resolved \<lparr>data = DataBuffer (concat bs), status = statusCode m,
                           statusText = statusMessage m,
                           headers = extractHeaders hst (rawHeaders m), url = u\<rparr>)
      \<and> length (concat bs) = sum_list (map length bs)"
      by (simp add: length_concat)
  qed
  have c: "opt_responseType opts = None \<longrightarrow> responseType_of opts = Text"
    by (simp add: responseType_of_def)
  have d: "res c = Some (code, message, hs) \<and> settled c = None \<and> responseType_of opts \<noteq> Json \<longrightarrow>
      settled (handle hst u opts c EvEnd)
        = Some (Resolved \<lparr>data = (if responseType_of opts = Arraybuffer
                                   then DataBuffer (concat (chunks c))
                                   else DataText (utf8 hst (concat (chunks c)))),
                           status = code, statusText = message, headers = hs, url = u\<rparr>)"
  proof (intro impI, elim conjE)
    assume r: "res c = Some (code, message, hs)" and s: "settled c = None"
      and t: "responseType_of opts \<noteq> Json"
    show "settled (handle hst u opts c EvEnd)
        = Some (Resolved \<lparr>data = (if responseType_of opts = Arraybuffer
                                   then DataBuffer (concat (chunks c))
                                   else DataText (utf8 hst (concat (chunks c)))),
                           status = code, statusText = message, headers = hs, url = u\<rparr>)"
      unfolding end_outcome[OF r s] using t by (cases "responseType_of opts") simp_all
  qed
  have e: "settled (run hst u opts ?start evs) = Some (Resolved r) \<longrightarrow> url r = u"
  proof
    assume s: "settled (run hst u opts ?start evs) = Some (Resolved r)"
    have f: "settled (run hst u opts ?start evs)
       = (case attempts (run hst u opts ?start evs) of [] \<Rightarrow> None | a # as \<Rightarrow> Some a)"
      by (rule run_invariant[where P = "\<lambda>c. settled c = (case attempts c of [] \<Rightarrow> None | a # as \<Rightarrow> Some a)"])
         (simp_all add: request_first_attempt handle_first_attempt)
    have "\<forall>r. Resolved r \<in> set (attempts (run hst u opts ?start evs)) \<longrightarrow> url r = u"
      by (rule run_invariant[where P = "\<lambda>c. \<forall>r. Resolved r \<in> set (attempts c) \<longrightarrow> url r = u"],
          rule request_resolved_url, erule handle_resolved_url)
    then show "url r = u" using settled_in_attempts[OF f s] by blast
  qed
  from a b c d e show ?thesis by blast
qed

text \<open>Three raw bytes with \<open>arraybuffer\<close>, and the text \<open>hi\<close> with the default type.\<close>

theorem resolved_value_witness:
  "settled (run example_host ''http://a'' (no_options\<lparr>opt_responseType := Some Arraybuffer\<rparr>)
       (request example_host ''http://a'' (no_options\<lparr>opt_responseType := Some Arraybuffer\<rparr>) [])
       (EvResponse \<lparr>statusCode = 200, statusMessage = ''OK'', rawHeaders = Some []\<rparr>
          # map EvData [[0, 255], [128]] @ [EvEnd]))
     = Some (Resolved \<lparr>data = DataBuffer [0, 255, 128], status = 200, statusText = ''OK'',
                        headers = [], url = ''http://a''\<rparr>)
   \<and> settled (run example_host ''http://a'' no_options
       (request example_host ''http://a'' no_options [])
       (EvResponse \<lparr>statusCode = 404, statusMessage = ''Not Found'', rawHeaders = Some []\<rparr>
          # map EvData [[104, 105]] @ [EvEnd]))
     = Some (Resolved \<lparr>data = DataText ''hi'', status = 404, statusText = ''Not Found'',
                        headers = [], url = ''http://a''\<rparr>)"
proof -
  have live1: "req (request example_host ''http://a'' (no_options\<lparr>opt_responseType := Some Arraybuffer\<rparr>) [])"
    by (simp add: eval_call)
  have live2: "req (request example_host ''http://a'' no_options [])"
    by (simp add: eval_call)
  have t1: "responseType_of (no_options\<lparr>opt_responseType := Some Arraybuffer\<rparr>) = Arraybuffer"
    by (simp add: responseType_of_def)
  have t2: "responseType_of no_options = Text"
    by (simp add: responseType_of_def no_options_def)
  have d: "utf8 example_host (concat [[104, 105]]) = ''hi''"
    by (simp add: example_host_def ascii_def char_of_def bit_Suc_0_iff)
  have e: "extractHeaders example_host (Some []) = []"
    by (simp add: extractHeaders_def extract_loop.simps)
  from resolved_value[where hst = example_host and u = "''http://a''" and h = "[]"
      and opts = "no_options\<lparr>opt_responseType := Some Arraybuffer\<rparr>"
      and m = "\<lparr>statusCode = 200, statusMessage = ''OK'', rawHeaders = Some []\<rparr>"
      and bs = "[[0, 255], [128]]"] live1 t1 e
  have a: "settled (run example_host ''http://a'' (no_options\<lparr>opt_responseType := Some Arraybuffer\<rparr>)
       (request example_host ''http://a'' (no_options\<lparr>opt_responseType := Some Arraybuffer\<rparr>) [])
       (EvResponse \<lparr>statusCode = 200, statusMessage = ''OK'', rawHeaders = Some []\<rparr>
          # map EvData [[0, 255], [128]] @ [EvEnd]))
     = Some (Resolved \<lparr>data = DataBuffer [0, 255, 128], status = 200, statusText = ''OK'',
                        headers = [], url = ''http://a''\<rparr>)"
    by simp
  from resolved_value[where hst = example_host and u = "''http://a''" and h = "[]"
      and opts = no_options
      and m = "\<lparr>statusCode = 404, statusMessage = ''Not Found'', rawHeaders = Some []\<rparr>"
      and bs = "[[104, 105]]"] live2 t2 d e
  have b: "settled (run example_host ''http://a'' no_options
       (request example_host ''http://a'' no_options [])
       (EvResponse \<lparr>statusCode = 404, statusMessage = ''Not Found'', rawHeaders = Some []\<rparr>
          # map EvData [[104, 105]] @ [EvEnd]))
     = Some (Resolved \<lparr>data = DataText ''hi'', status = 404, statusText = ''Not Found'',
                        headers = [], url = ''http://a''\<rparr>)"
    by simp
  from a b show ?thesis by simp
qed

subsection \<open>Errors of the transport and of the setup\<close>

text \<open>
  Claim C9 fails on the code. With no proxy in the options, an exception thrown while
  the request is built (\<open>setHeader\<close> on a header name it refuses, \<open>net.request\<close> on a URL
  it refuses) reaches the handler of \<open>catch\<close> and is reported as
  \<open>Failed to setup proxy\<close>, although no proxy was set up.
\<close>

theorem request_exception_reported_as_proxy_failure:
  "opt_proxy (no_options\<lparr>opt_headers := Some 0\<rparr>) = None
   \<and> settled (request example_host ''http://a'' (no_options\<lparr>opt_headers := Some 0\<rparr>)
                [[(''bad name'', ''x'')]])
       = Some (Rejected (NewError ''Failed to setup proxy: Error: Invalid header name: bad name''))
   \<and> calls (request example_host ''http://a'' (no_options\<lparr>opt_headers := Some 0\<rparr>)
                [[(''bad name'', ''x'')]])
       = [CallNetRequest \<lparr>nr_method = GET, nr_url = ''http://a'', nr_session = DefaultSession,
            nr_redirect = Follow, nr_useSessionCookies = True\<rparr>,
          CallSetHeader ''bad name'' ''x'']
   \<and> settled (request example_host ''not a url'' no_options [])
       = Some (Rejected (NewError ''Failed to setup proxy: TypeError: Invalid URL''))
   \<and> calls (request example_host ''not a url'' no_options [])
       = [CallNetRequest \<lparr>nr_method = GET, nr_url = ''not a url'', nr_session = DefaultSession,
            nr_redirect = Follow, nr_useSessionCookies = True\<rparr>]"
  by (simp add: eval_call)

end
